(* ===== verification/Prelude.thy ===== *)
theory Prelude
  imports Complex_Main
begin

text \<open>Shared vocabulary of the development: an executable power of two with integer
  exponent over the rationals (the scale of a binary64 value), the integer floor of
  the binary logarithm, the lemma collections the component theories use, and small
  facts on integers and lists.  Everything that a witness evaluates is written over
  \<open>int\<close>, whose code equations compute on binary numerals.\<close>

named_theorems pow2_simps "rewriting of powers of two with integer exponent"

function ipow2 :: "int \<Rightarrow> int" where
  "ipow2 k = (if k \<le> 0 then 1
              else let h = ipow2 (k div 2) in if even k then h * h else 2 * h * h)"
  by pat_completeness auto
termination by (relation "measure nat") auto

declare ipow2.simps [simp del]

definition pow2 :: "int \<Rightarrow> rat" where
  "pow2 k = (if 0 \<le> k then of_int (ipow2 k) else 1 / of_int (ipow2 (- k)))"

function flog2_int :: "int \<Rightarrow> int" where
  "flog2_int n = (if n < 2 then 0 else flog2_int (n div 2) + 1)"
  by pat_completeness auto
termination by (relation "measure nat") auto

declare flog2_int.simps [simp del]

lemma ipow2_eq: "0 \<le> k \<Longrightarrow> ipow2 k = 2 ^ nat k"
proof (induction k rule: ipow2.induct)
  case (1 k)
  show ?case
  proof (cases "k \<le> 0")
    case True
    with "1.prems" show ?thesis by (simp add: ipow2.simps)
  next
    case False
    then have IH: "ipow2 (k div 2) = 2 ^ nat (k div 2)"
      using "1.IH" by simp
    have "nat k = nat (k div 2) + nat (k div 2) + (if even k then 0 else 1)"
      using False by (cases "even k") (auto elim!: evenE oddE simp: nat_add_distrib)
    then have "(2::int) ^ nat k = 2 ^ nat (k div 2) * 2 ^ nat (k div 2) * (if even k then 1 else 2)"
      by (simp add: power_add)
    with False IH show ?thesis
      by (simp add: ipow2.simps [of k] Let_def)
  qed
qed

lemma pow2_powi: "pow2 k = 2 powi k"
  by (simp add: pow2_def ipow2_eq power_int_def field_simps)

lemma pow2_pos [simp]: "0 < pow2 k"
  by (simp add: pow2_powi)

lemma pow2_nonneg [simp]: "0 \<le> pow2 k"
  using pow2_pos [of k] by linarith

lemma pow2_abs [simp]: "\<bar>pow2 k\<bar> = pow2 k"
  by simp

lemma pow2_nonzero [simp]: "pow2 k \<noteq> 0"
  by (simp add: pow2_powi)

lemma pow2_add [pow2_simps]: "pow2 (a + b) = pow2 a * pow2 b"
  by (simp add: pow2_powi power_int_add)

lemma pow2_diff [pow2_simps]: "pow2 (a - b) = pow2 a / pow2 b"
  by (simp add: pow2_powi power_int_diff)

lemma pow2_minus [pow2_simps]: "pow2 (- a) = 1 / pow2 a"
  by (simp add: pow2_powi power_int_minus_divide)

lemma pow2_0 [simp]: "pow2 0 = 1"
  by (simp add: pow2_powi)

lemma pow2_1 [simp]: "pow2 1 = 2"
  by (simp add: pow2_powi)

lemma pow2_of_nat [simp]: "pow2 (int n) = 2 ^ n"
  by (simp add: pow2_powi)

lemma pow2_numeral [pow2_simps]: "pow2 (numeral n) = 2 ^ numeral n"
  using pow2_of_nat [of "numeral n"] by simp

lemma pow2_strict_mono: "a < b \<Longrightarrow> pow2 a < pow2 b"
  unfolding pow2_powi by (rule power_int_strict_increasing) simp_all

lemma pow2_mono: "a \<le> b \<Longrightarrow> pow2 a \<le> pow2 b"
  unfolding pow2_powi by (rule power_int_increasing) simp_all

lemma pow2_less_iff [simp]: "pow2 a < pow2 b \<longleftrightarrow> a < b"
  using pow2_strict_mono pow2_mono by (meson not_le)

lemma pow2_le_iff [simp]: "pow2 a \<le> pow2 b \<longleftrightarrow> a \<le> b"
  using pow2_strict_mono pow2_mono by (meson not_le)

lemma pow2_eq_iff [simp]: "pow2 a = pow2 b \<longleftrightarrow> a = b"
  by (metis less_irrefl linorder_neqE pow2_strict_mono)

lemma pow2_ge_1: "0 \<le> k \<Longrightarrow> 1 \<le> pow2 k"
  using pow2_mono [of 0 k] by simp

lemma flog2_int_bounds_int:
  "0 < n \<Longrightarrow> 0 \<le> flog2_int n \<and> 2 ^ nat (flog2_int n) \<le> n \<and> n < 2 ^ Suc (nat (flog2_int n))"
proof (induction n rule: flog2_int.induct)
  case (1 n)
  show ?case
  proof (cases "n < 2")
    case True
    with "1.prems" have "n = 1" by simp
    then show ?thesis by (simp add: flog2_int.simps)
  next
    case False
    then have "0 < n div 2" by simp
    with "1.IH" False have IH: "0 \<le> flog2_int (n div 2) \<and>
        2 ^ nat (flog2_int (n div 2)) \<le> n div 2 \<and> n div 2 < 2 ^ Suc (nat (flog2_int (n div 2)))"
      by simp
    have "2 * (n div 2) \<le> n" "n < 2 * (n div 2 + 1)"
      by presburger+
    with IH False show ?thesis
      by (simp add: flog2_int.simps [of n] nat_add_distrib)
  qed
qed

lemma flog2_int_bounds:
  assumes "0 < n"
  shows "0 \<le> flog2_int n \<and> pow2 (flog2_int n) \<le> of_int n \<and> of_int n < pow2 (flog2_int n + 1)"
proof -
  from flog2_int_bounds_int [OF assms] have f: "0 \<le> flog2_int n" and
    lo: "2 ^ nat (flog2_int n) \<le> n" and hi: "n < 2 ^ Suc (nat (flog2_int n))" by auto
  have e1: "pow2 (flog2_int n) = of_int (2 ^ nat (flog2_int n))"
    using f pow2_of_nat [of "nat (flog2_int n)"] by simp
  have e2: "pow2 (flog2_int n + 1) = of_int (2 ^ Suc (nat (flog2_int n)))"
    using f pow2_of_nat [of "Suc (nat (flog2_int n))"] by (simp add: add.commute)
  show ?thesis
    unfolding e1 e2 using f lo hi by (simp only: of_int_le_iff of_int_less_iff simp_thms)
qed

end
