(* ===== verification/Float64.thy ===== *)
theory Float64
  imports Prelude
begin

section \<open>IEEE 754 binary64: the JavaScript Number type\<close>

text \<open>A Number is a finite binary64 value, held as the rational it denotes (\<open>Fin 0\<close> is
  \<open>+0\<close>), negative zero, an infinity or NaN.  \<open>rnd\<close> rounds a rational to the nearest
  value with a 53-bit significand and an exponent of at least \<open>-1074\<close>, ties to even,
  as IEEE 754 \<open>roundTiesToEven\<close> does for binary64 with the exponent range unbounded
  above; \<open>round_f64\<close> adds the overflow to an infinity and the sign of a zero.  The
  arithmetic of ECMA-262 (\<open>Number::add\<close>, \<open>Number::subtract\<close>,
  \<open>Number::multiply\<close>, \<open>Number::unaryMinus\<close>) is written over these.  All
  definitions compute on integers and rationals, so that \<open>code_simp\<close> evaluates them
  on concrete values.  The lemmas give the error bound of \<open>rnd\<close>, its exactness on
  values that already are doubles, its idempotence, its symmetry and its sign, and
  that every operation returns a well-formed value.\<close>

subsection \<open>Rounding\<close>

definition flog2 :: "rat \<Rightarrow> int" where
  "flog2 q = (let (a, b) = quotient_of q; e0 = flog2_int a - flog2_int b
              in if pow2 e0 \<le> q then e0 else e0 - 1)"

definition rne :: "rat \<Rightarrow> int" where
  "rne x = (let f = \<lfloor>x\<rfloor>; d = x - of_int f in
            if d < 1/2 then f else if 1/2 < d then f + 1
            else if even f then f else f + 1)"

definition rnd_exp :: "rat \<Rightarrow> int" where
  "rnd_exp q = max (flog2 \<bar>q\<bar>) (-1022)"

definition rnd :: "rat \<Rightarrow> rat" where
  "rnd q = (if q = 0 then 0
            else of_int (rne (q * pow2 (52 - rnd_exp q))) * pow2 (rnd_exp q - 52))"

datatype f64 = Fin rat | NegZero | PosInf | NegInf | NaN

definition round_f64 :: "bool \<Rightarrow> rat \<Rightarrow> f64" where
  "round_f64 neg q = (let r = rnd q in
     if r = 0 then (if (if q = 0 then neg else q < 0) then NegZero else Fin 0)
     else if pow2 1024 \<le> \<bar>r\<bar> then (if r < 0 then NegInf else PosInf)
     else Fin r)"

subsection \<open>Binary64 values\<close>

definition is_double :: "rat \<Rightarrow> bool" where
  "is_double q \<longleftrightarrow> rnd q = q \<and> \<bar>q\<bar> < pow2 1024"

fun f64_ok :: "f64 \<Rightarrow> bool" where
  "f64_ok (Fin q) = is_double q"
| "f64_ok _ = True"

fun fval :: "f64 \<Rightarrow> rat" where
  "fval (Fin q) = q"
| "fval _ = 0"

fun is_nan :: "f64 \<Rightarrow> bool" where
  "is_nan NaN = True"
| "is_nan _ = False"

fun is_inf :: "f64 \<Rightarrow> bool" where
  "is_inf PosInf = True"
| "is_inf NegInf = True"
| "is_inf _ = False"

fun is_zero :: "f64 \<Rightarrow> bool" where
  "is_zero (Fin q) = (q = 0)"
| "is_zero NegZero = True"
| "is_zero _ = False"

fun is_finite :: "f64 \<Rightarrow> bool" where
  "is_finite (Fin q) = True"
| "is_finite NegZero = True"
| "is_finite _ = False"

fun sbit :: "f64 \<Rightarrow> bool" where
  "sbit (Fin q) = (q < 0)"
| "sbit NegZero = True"
| "sbit NegInf = True"
| "sbit _ = False"

fun is_neg :: "f64 \<Rightarrow> bool" where
  "is_neg (Fin q) = (q < 0)"
| "is_neg NegInf = True"
| "is_neg _ = False"

text \<open>ECMAScript \<open>Number::unaryMinus\<close>, \<open>Number::add\<close>, \<open>Number::subtract\<close> and
  \<open>Number::multiply\<close> (ECMA-262 6.1.6.1), the last with the sign of a zero product
  as IEEE 754 gives it.\<close>

fun fneg :: "f64 \<Rightarrow> f64" where
  "fneg (Fin q) = (if q = 0 then NegZero else Fin (- q))"
| "fneg NegZero = Fin 0"
| "fneg PosInf = NegInf"
| "fneg NegInf = PosInf"
| "fneg NaN = NaN"

definition fadd :: "f64 \<Rightarrow> f64 \<Rightarrow> f64" where
  "fadd x y =
    (if is_nan x \<or> is_nan y then NaN
     else if x = PosInf \<and> y = NegInf then NaN
     else if x = NegInf \<and> y = PosInf then NaN
     else if is_inf x then x
     else if is_inf y then y
     else if x = NegZero \<and> y = NegZero then NegZero
     else round_f64 False (fval x + fval y))"

definition fsub :: "f64 \<Rightarrow> f64 \<Rightarrow> f64" where
  "fsub x y = fadd x (fneg y)"

definition fmul :: "f64 \<Rightarrow> f64 \<Rightarrow> f64" where
  "fmul x y =
    (if is_nan x \<or> is_nan y then NaN
     else if is_inf x \<and> is_zero y then NaN
     else if is_zero x \<and> is_inf y then NaN
     else if is_inf x \<or> is_inf y then (if sbit x = sbit y then PosInf else NegInf)
     else round_f64 (sbit x \<noteq> sbit y) (fval x * fval y))"

text \<open>The Number value of a mathematical value (a numeric literal, the result of
  \<open>parseInt\<close>).\<close>

definition f64_of_rat :: "rat \<Rightarrow> f64" where
  "f64_of_rat q = round_f64 False q"

subsection \<open>Binary exponent of a positive rational\<close>

lemma flog2_bounds:
  assumes "0 < q"
  shows "pow2 (flog2 q) \<le> q \<and> q < pow2 (flog2 q + 1)"
proof -
  obtain a b where qa: "quotient_of q = (a, b)" by (cases "quotient_of q") auto
  have b: "0 < b" using qa by (rule quotient_of_denom_pos)
  have q: "q = of_int a / of_int b" using qa by (rule quotient_of_div)
  with assms b have a: "0 < a" by (simp add: zero_less_divide_iff)
  define la where "la = flog2_int a"
  define lb where "lb = flog2_int b"
  from flog2_int_bounds [OF a] have a1: "pow2 la \<le> of_int a" and a2: "of_int a < pow2 (la + 1)"
    by (simp_all add: la_def)
  from flog2_int_bounds [OF b] have b1: "pow2 lb \<le> of_int b" and b2: "of_int b < pow2 (lb + 1)"
    by (simp_all add: lb_def)
  have up: "q < pow2 (la - lb + 1)"
  proof -
    have "q < pow2 (la + 1) / pow2 lb"
      unfolding q using a a2 b1 by (intro frac_less) simp_all
    then show ?thesis by (simp add: pow2_simps)
  qed
  have lo: "pow2 (la - lb - 1) < q"
  proof -
    have "pow2 la / pow2 (lb + 1) < q"
      unfolding q using a1 b2 b by (intro frac_less2) simp_all
    then show ?thesis by (simp add: pow2_simps)
  qed
  have fl: "flog2 q = (if pow2 (la - lb) \<le> q then la - lb else la - lb - 1)"
    by (simp add: flog2_def qa la_def lb_def)
  show ?thesis
  proof (cases "pow2 (la - lb) \<le> q")
    case True
    with up fl show ?thesis by simp
  next
    case False
    with lo fl show ?thesis by simp
  qed
qed

lemma flog2_unique:
  assumes "pow2 e \<le> q" and "q < pow2 (e + 1)"
  shows "flog2 q = e"
proof -
  have "0 < q" using assms(1) pow2_pos [of e] by linarith
  from flog2_bounds [OF this] have "pow2 (flog2 q) \<le> q" "q < pow2 (flog2 q + 1)" by auto
  with assms have "pow2 (flog2 q) < pow2 (e + 1)" "pow2 e < pow2 (flog2 q + 1)"
    by linarith+
  then show ?thesis by simp
qed

lemma flog2_less:
  assumes "0 < q" and "q < pow2 j"
  shows "flog2 q < j"
proof -
  from flog2_bounds [OF assms(1)] assms(2) have "pow2 (flog2 q) < pow2 j" by linarith
  then show ?thesis by simp
qed

lemma flog2_ge:
  assumes "pow2 j \<le> q"
  shows "j \<le> flog2 q"
proof -
  have "0 < q" using assms pow2_pos [of j] by linarith
  from flog2_bounds [OF this] assms have "pow2 j < pow2 (flog2 q + 1)" by linarith
  then show ?thesis by simp
qed

subsection \<open>Rounding to the nearest integer, ties to even\<close>

lemma rne_alt:
  "rne x = \<lfloor>x\<rfloor> + (if 1/2 < x - of_int \<lfloor>x\<rfloor> \<or> (x - of_int \<lfloor>x\<rfloor> = 1/2 \<and> odd \<lfloor>x\<rfloor>) then 1 else 0)"
  by (auto simp: rne_def Let_def)

lemma rne_err: "\<bar>of_int (rne x) - x\<bar> \<le> 1/2"
proof -
  have "0 \<le> x - of_int \<lfloor>x\<rfloor>" "x - of_int \<lfloor>x\<rfloor> < 1" by linarith+
  then show ?thesis by (auto simp: rne_def Let_def)
qed

lemma rne_of_int [simp]: "rne (of_int n) = n"
  by (simp add: rne_def)

lemma rne_0 [simp]: "rne 0 = 0"
  using rne_of_int [of 0] by simp

lemma rne_1 [simp]: "rne 1 = 1"
  using rne_of_int [of 1] by simp

lemma rne_numeral [simp]: "rne (numeral n) = numeral n"
  using rne_of_int [of "numeral n"] by simp

lemma rne_neg_numeral [simp]: "rne (- numeral n) = - numeral n"
  using rne_of_int [of "- numeral n"] by simp

lemma rne_floor_bounds: "\<lfloor>x\<rfloor> \<le> rne x \<and> rne x \<le> \<lfloor>x\<rfloor> + 1"
  by (simp add: rne_alt)

lemma rne_mono:
  assumes "x \<le> y"
  shows "rne x \<le> rne y"
proof (cases "\<lfloor>x\<rfloor> < \<lfloor>y\<rfloor>")
  case True
  with rne_floor_bounds [of x] rne_floor_bounds [of y] show ?thesis by linarith
next
  case False
  with floor_mono [OF assms] have f: "\<lfloor>x\<rfloor> = \<lfloor>y\<rfloor>" by simp
  with assms have "x - of_int \<lfloor>x\<rfloor> \<le> y - of_int \<lfloor>y\<rfloor>" by simp
  with f show ?thesis by (auto simp: rne_alt)
qed

lemma rne_uminus: "rne (- x) = - rne x"
proof (cases "x = of_int \<lfloor>x\<rfloor>")
  case True
  then show ?thesis by (metis of_int_minus rne_of_int)
next
  case False
  have "of_int \<lfloor>x\<rfloor> \<le> x" "x < of_int \<lfloor>x\<rfloor> + 1" by linarith+
  with False have lt: "of_int \<lfloor>x\<rfloor> < x" by (metis le_neq_trans)
  have fl: "\<lfloor>- x\<rfloor> = - \<lfloor>x\<rfloor> - 1"
    by (rule floor_unique) (use lt \<open>x < of_int \<lfloor>x\<rfloor> + 1\<close> in simp_all)
  have d: "- x - of_int \<lfloor>- x\<rfloor> = 1 - (x - of_int \<lfloor>x\<rfloor>)"
    by (simp add: fl)
  show ?thesis
    unfolding rne_alt [of "- x"] rne_alt [of x] d fl by auto
qed

subsection \<open>Rounding a rational to binary64 precision\<close>

lemma rnd_0 [simp]: "rnd 0 = 0"
  by (simp add: rnd_def)

lemma rnd_exp_ge: "-1022 \<le> rnd_exp q"
  by (simp add: rnd_exp_def)

lemma rnd_exp_uminus [simp]: "rnd_exp (- q) = rnd_exp q"
  by (simp add: rnd_exp_def)

lemma abs_less_rnd_exp: "q \<noteq> 0 \<Longrightarrow> \<bar>q\<bar> < pow2 (rnd_exp q + 1)"
proof -
  assume "q \<noteq> 0"
  then have "\<bar>q\<bar> < pow2 (flog2 \<bar>q\<bar> + 1)" using flog2_bounds [of "\<bar>q\<bar>"] by simp
  also have "\<dots> \<le> pow2 (rnd_exp q + 1)" by (simp add: rnd_exp_def)
  finally show ?thesis .
qed

lemma rnd_exp_normal:
  assumes "pow2 (-1022) \<le> \<bar>q\<bar>"
  shows "rnd_exp q = flog2 \<bar>q\<bar> \<and> pow2 (rnd_exp q) \<le> \<bar>q\<bar>"
proof -
  from flog2_ge [OF assms] have "rnd_exp q = flog2 \<bar>q\<bar>" by (simp add: rnd_exp_def)
  moreover have "0 < \<bar>q\<bar>" using assms pow2_pos [of "-1022"] by linarith
  ultimately show ?thesis using flog2_bounds [of "\<bar>q\<bar>"] by simp
qed

lemma rnd_exp_normal_le: "pow2 (-1022) \<le> \<bar>q\<bar> \<Longrightarrow> pow2 (rnd_exp q) \<le> \<bar>q\<bar>"
  by (rule rnd_exp_normal [THEN conjunct2])

lemma scaled_rescale: "q * pow2 (52 - e) * pow2 (e - 52) = q"
  by (simp add: pow2_simps)

lemma scaled_bound:
  assumes "q \<noteq> 0"
  shows "\<bar>q * pow2 (52 - rnd_exp q)\<bar> < pow2 53"
proof -
  have "\<bar>q * pow2 (52 - rnd_exp q)\<bar> = \<bar>q\<bar> * pow2 (52 - rnd_exp q)" by (simp add: abs_mult)
  also have "\<dots> < pow2 (rnd_exp q + 1) * pow2 (52 - rnd_exp q)"
    using abs_less_rnd_exp [OF assms] by simp
  also have "\<dots> = pow2 53" by (simp flip: pow2_add)
  finally show ?thesis .
qed

lemma rnd_err: "\<bar>rnd q - q\<bar> \<le> pow2 (rnd_exp q - 53)"
proof (cases "q = 0")
  case True
  then show ?thesis by simp
next
  case False
  define x where "x = q * pow2 (52 - rnd_exp q)"
  have "rnd q - q = (of_int (rne x) - x) * pow2 (rnd_exp q - 52)"
    using False by (simp add: rnd_def x_def left_diff_distrib scaled_rescale)
  then have "\<bar>rnd q - q\<bar> = \<bar>of_int (rne x) - x\<bar> * pow2 (rnd_exp q - 52)"
    by (simp add: abs_mult)
  also have "\<dots> \<le> 1/2 * pow2 (rnd_exp q - 52)"
    using rne_err [of x] by simp
  also have "\<dots> = pow2 (rnd_exp q - 53)"
    by (simp add: pow2_simps)
  finally show ?thesis .
qed

lemma rnd_uminus: "rnd (- q) = - rnd q"
  by (simp add: rnd_def rne_uminus)

lemma pow2_nonneg_int: "0 \<le> j \<Longrightarrow> pow2 j = of_int (2 ^ nat j)"
  using pow2_of_nat [of "nat j"] by simp

lemma rnd_exact:
  assumes m: "\<bar>m\<bar> < 2 ^ 53" and k: "-1074 \<le> k"
  shows "rnd (of_int m * pow2 k) = of_int m * pow2 k"
proof (cases "m = 0")
  case True
  then show ?thesis by simp
next
  case False
  define q where "q = of_int m * pow2 k"
  have q0: "q \<noteq> 0" using False by (simp add: q_def)
  have "\<bar>q\<bar> = of_int \<bar>m\<bar> * pow2 k" by (simp add: q_def abs_mult)
  also have "\<dots> < pow2 53 * pow2 k"
    using m by (simp add: pow2_numeral)
  finally have "flog2 \<bar>q\<bar> < 53 + k"
    using q0 by (intro flog2_less) (simp_all add: pow2_add)
  with k have E: "rnd_exp q \<le> 52 + k" by (simp add: rnd_exp_def)
  define j where "j = k + 52 - rnd_exp q"
  have j: "0 \<le> j" using E by (simp add: j_def)
  have "q * pow2 (52 - rnd_exp q) = of_int m * pow2 j"
    by (simp add: q_def j_def pow2_simps)
  also have "\<dots> = of_int (m * 2 ^ nat j)"
    using j by (simp add: pow2_nonneg_int)
  finally have "rne (q * pow2 (52 - rnd_exp q)) = m * 2 ^ nat j" by (simp only: rne_of_int)
  then have "rnd q = of_int m * pow2 j * pow2 (rnd_exp q - 52)"
    using q0 j by (simp add: rnd_def pow2_nonneg_int)
  also have "\<dots> = q" by (simp add: q_def j_def pow2_simps)
  finally show ?thesis by (simp add: q_def)
qed

lemma rne_scaled_bound:
  assumes "q \<noteq> 0"
  shows "\<bar>rne (q * pow2 (52 - rnd_exp q))\<bar> \<le> 2 ^ 53"
proof -
  define x where "x = q * pow2 (52 - rnd_exp q)"
  from scaled_bound [OF assms] have "- (2 ^ 53) \<le> x" "x \<le> 2 ^ 53"
    by (simp_all add: x_def pow2_numeral abs_less_iff)
  then have "rne (of_int (- (2 ^ 53))) \<le> rne x" "rne x \<le> rne (of_int (2 ^ 53))"
    by (simp_all only: rne_mono of_int_minus of_int_power of_int_numeral)
  then show ?thesis by (simp add: x_def)
qed

lemma rnd_shape:
  "\<exists>M e. rnd q = of_int M * pow2 e \<and> \<bar>M\<bar> \<le> 2 ^ 53 \<and> -1074 \<le> e"
proof (cases "q = 0")
  case True
  then show ?thesis by (intro exI [of _ 0] exI [of _ 0]) simp
next
  case False
  show ?thesis
    by (intro exI [of _ "rne (q * pow2 (52 - rnd_exp q))"] exI [of _ "rnd_exp q - 52"])
       (use False rne_scaled_bound [OF False] rnd_exp_ge [of q] in \<open>simp add: rnd_def\<close>)
qed

lemma rnd_idem: "rnd (rnd q) = rnd q"
proof -
  obtain M e where r: "rnd q = of_int M * pow2 e" and M: "\<bar>M\<bar> \<le> 2 ^ 53" and e: "-1074 \<le> e"
    using rnd_shape [of q] by blast
  show ?thesis
  proof (cases "\<bar>M\<bar> < 2 ^ 53")
    case True
    show ?thesis unfolding r by (rule rnd_exact [OF True e])
  next
    case False
    with M have "M = 2 ^ 53 \<or> M = - (2 ^ 53)" by linarith
    then have "rnd q = of_int (M div 2) * pow2 (e + 1)" and "\<bar>M div 2\<bar> < 2 ^ 53"
      by (auto simp: r pow2_add)
    with e show ?thesis using rnd_exact [of "M div 2" "e + 1"] by simp
  qed
qed

lemma rnd_dyadic: "\<exists>M. rnd q = of_int M * pow2 (-1074)"
proof -
  obtain M e where r: "rnd q = of_int M * pow2 e" and e: "-1074 \<le> e"
    using rnd_shape [of q] by blast
  have "pow2 e = pow2 (e + 1074) * pow2 (-1074)"
    by (simp flip: pow2_add)
  also have "pow2 (e + 1074) = of_int (2 ^ nat (e + 1074))"
    using e by (simp add: pow2_nonneg_int)
  finally have "pow2 e = of_int (2 ^ nat (e + 1074)) * pow2 (-1074)" .
  with r show ?thesis by (intro exI [of _ "M * 2 ^ nat (e + 1074)"]) simp
qed

lemma rnd_nonneg: "0 \<le> q \<Longrightarrow> 0 \<le> rnd q"
proof -
  assume q: "0 \<le> q"
  then have "rne 0 \<le> rne (q * pow2 (52 - rnd_exp q))" by (intro rne_mono) simp
  with q show ?thesis by (simp add: rnd_def zero_le_mult_iff)
qed

lemma rnd_pos:
  assumes q: "pow2 (-1074) \<le> q"
  shows "0 < rnd q"
proof -
  have q0: "0 < q" using q pow2_pos [of "-1074"] by linarith
  have "1 \<le> q * pow2 (52 - rnd_exp q)"
  proof (cases "pow2 (-1022) \<le> q")
    case True
    have aq: "\<bar>q\<bar> = q" using q0 by simp
    with True have "pow2 (-1022) \<le> \<bar>q\<bar>" by simp
    then have "pow2 (rnd_exp q) \<le> \<bar>q\<bar>" by (rule rnd_exp_normal_le)
    with aq have "pow2 (rnd_exp q) \<le> q" by simp
    then have "pow2 (rnd_exp q) * pow2 (52 - rnd_exp q) \<le> q * pow2 (52 - rnd_exp q)"
      by simp
    then have "pow2 52 \<le> q * pow2 (52 - rnd_exp q)" by (simp flip: pow2_add)
    with pow2_ge_1 [of 52] show ?thesis by linarith
  next
    case False
    then have "flog2 q < -1022" using q0 by (intro flog2_less) simp_all
    then have "rnd_exp q = -1022" using q0 by (simp add: rnd_exp_def)
    with q have "pow2 (-1074) * pow2 1074 \<le> q * pow2 (52 - rnd_exp q)" by simp
    then show ?thesis by (simp flip: pow2_add)
  qed
  then have "rne 1 \<le> rne (q * pow2 (52 - rnd_exp q))" by (rule rne_mono)
  then have "1 \<le> rne (q * pow2 (52 - rnd_exp q))" using rne_of_int [of 1] by simp
  with q0 show ?thesis by (simp add: rnd_def)
qed

subsection \<open>Lemmas on binary64 values and operations\<close>

lemma is_double_0 [simp]: "is_double 0"
  by (simp add: is_double_def)

lemma is_double_uminus [simp]: "is_double (- q) = is_double q"
  by (auto simp: is_double_def rnd_uminus)

lemma is_double_int: "\<bar>n\<bar> < 2 ^ 53 \<Longrightarrow> is_double (of_int n)"
  using rnd_exact [of n 0] by (simp add: is_double_def pow2_numeral)

lemma is_double_numeral [simp]: "(numeral n :: int) < 2 ^ 53 \<Longrightarrow> is_double (numeral n)"
  using is_double_int [of "numeral n"] by simp

lemma is_double_dyadic: "is_double q \<Longrightarrow> \<exists>M. q = of_int M * pow2 (-1074)"
  using rnd_dyadic [of q] by (auto simp: is_double_def)

lemma round_f64_ok: "f64_ok (round_f64 neg q)"
  by (simp add: round_f64_def Let_def is_double_def rnd_idem)

lemma round_f64_exact: "is_double q \<Longrightarrow> q \<noteq> 0 \<Longrightarrow> round_f64 neg q = Fin q"
  by (simp add: round_f64_def is_double_def)

lemma fneg_ok: "f64_ok x \<Longrightarrow> f64_ok (fneg x)"
  by (cases x) auto

lemma fadd_ok: "f64_ok x \<Longrightarrow> f64_ok y \<Longrightarrow> f64_ok (fadd x y)"
  by (simp add: fadd_def round_f64_ok)

lemma fsub_ok: "f64_ok x \<Longrightarrow> f64_ok y \<Longrightarrow> f64_ok (fsub x y)"
  by (simp add: fsub_def fadd_ok fneg_ok)

lemma fmul_ok: "f64_ok (fmul x y)"
  by (simp add: fmul_def round_f64_ok)

lemma round_f64_nonzero:
  assumes "pow2 (-1074) \<le> \<bar>q\<bar>" and "\<bar>rnd q\<bar> < pow2 1024"
  shows "round_f64 neg q = Fin (rnd q) \<and> (rnd q < 0 \<longleftrightarrow> q < 0)"
proof (cases "q < 0")
  case True
  with assms have "0 < rnd (- q)" by (intro rnd_pos) simp
  with True assms show ?thesis by (simp add: round_f64_def rnd_uminus)
next
  case False
  with assms have "0 < rnd q" by (intro rnd_pos) simp
  with False assms show ?thesis by (simp add: round_f64_def)
qed

lemma round_f64_rel_err:
  assumes "pow2 (-1022) \<le> \<bar>q\<bar>"
  shows "\<bar>rnd q - q\<bar> \<le> \<bar>q\<bar> * pow2 (-53)"
proof -
  from rnd_exp_normal_le [OF assms] have "pow2 (rnd_exp q) \<le> \<bar>q\<bar>" .
  then have "pow2 (rnd_exp q) * pow2 (-53) \<le> \<bar>q\<bar> * pow2 (-53)" by simp
  with rnd_err [of q] show ?thesis by (simp add: pow2_add [symmetric])
qed

lemma fmul_Fin [simp]: "fmul (Fin a) (Fin b) = round_f64 ((a < 0) \<noteq> (b < 0)) (a * b)"
  by (simp add: fmul_def)

lemma fsub_Fin [simp]: "fsub (Fin a) (Fin b) = round_f64 False (a - b)"
  by (simp add: fsub_def fadd_def)

lemma round_f64_zero [simp]: "round_f64 neg 0 = (if neg then NegZero else Fin 0)"
  by (simp add: round_f64_def)

lemma round_f64_int:
  assumes "\<bar>n\<bar> < 2 ^ 53" and "n \<noteq> 0"
  shows "round_f64 neg (of_int n) = Fin (of_int n)"
proof -
  have "\<bar>(of_int n :: rat)\<bar> < 2 ^ 53"
    using assms(1) by (metis of_int_abs of_int_less_iff of_int_numeral of_int_power)
  then have "\<bar>(of_int n :: rat)\<bar> < pow2 1024"
    using pow2_strict_mono [of 53 1024] by (simp add: pow2_numeral)
  moreover have "rnd (of_int n) = of_int n" using is_double_int [OF assms(1)] by (simp add: is_double_def)
  ultimately show ?thesis using assms(2) by (simp add: round_f64_def)
qed

lemma rnd_abs_err: "\<bar>rnd q - q\<bar> \<le> \<bar>q\<bar> * pow2 (-53) + pow2 (-1075)"
proof (cases "pow2 (-1022) \<le> \<bar>q\<bar>")
  case True
  from round_f64_rel_err [OF True] show ?thesis by (simp add: add_increasing2)
next
  case False
  then have "q \<noteq> 0 \<longrightarrow> flog2 \<bar>q\<bar> < -1022" by (auto intro: flog2_less)
  then have "q \<noteq> 0 \<longrightarrow> rnd_exp q = -1022" by (auto simp: rnd_exp_def)
  then have "\<bar>rnd q - q\<bar> \<le> pow2 (-1075)" using rnd_err [of q] by (cases "q = 0") auto
  then show ?thesis by (simp add: add_increasing)
qed

lemma round_f64_Fin:
  assumes "rnd q \<noteq> 0" and "\<bar>rnd q\<bar> < pow2 1024"
  shows "round_f64 neg q = Fin (rnd q)"
  using assms by (simp add: round_f64_def)

lemma rnd_of_int_int: "\<exists>k. rnd (of_int n) = of_int k"
proof (cases "\<bar>n\<bar> < 2 ^ 53")
  case True
  then show ?thesis using is_double_int [OF True] by (auto simp: is_double_def)
next
  case False
  then have n0: "n \<noteq> 0" by auto
  have "pow2 53 \<le> \<bar>(of_int n :: rat)\<bar>"
    using False by (simp add: pow2_numeral)
  then have "53 \<le> flog2 \<bar>(of_int n :: rat)\<bar>" by (rule flog2_ge)
  then have E: "53 \<le> rnd_exp (of_int n :: rat)" by (simp add: rnd_exp_def)
  have "rnd (of_int n) = of_int (rne (of_int n * pow2 (52 - rnd_exp (of_int n)))) *
          of_int (2 ^ nat (rnd_exp (of_int n :: rat) - 52))"
    using n0 E by (simp add: rnd_def pow2_nonneg_int)
  then show ?thesis by (metis of_int_mult)
qed

lemma round_f64_is_neg:
  assumes "pow2 (-1074) \<le> \<bar>q\<bar>"
  shows "is_neg (round_f64 neg q) \<longleftrightarrow> q < 0"
proof (cases "q < 0")
  case True
  with assms have "0 < rnd (- q)" by (intro rnd_pos) simp
  with True show ?thesis by (auto simp: round_f64_def rnd_uminus Let_def)
next
  case False
  with assms have "0 < rnd q" by (intro rnd_pos) simp
  with False show ?thesis by (auto simp: round_f64_def Let_def)
qed

lemma dyadic_diff_bound:
  assumes "is_double a" and "is_double b" and "a \<noteq> b"
  shows "pow2 (-1074) \<le> \<bar>a - b\<bar>"
proof -
  obtain M N where "a = of_int M * pow2 (-1074)" "b = of_int N * pow2 (-1074)"
    using is_double_dyadic assms(1,2) by blast
  moreover with assms(3) have "M \<noteq> N" by auto
  ultimately have "\<bar>a - b\<bar> = of_int \<bar>M - N\<bar> * pow2 (-1074)" and "1 \<le> \<bar>M - N\<bar>"
    by (auto simp: left_diff_distrib [symmetric] abs_mult)
  moreover have h: "(1::rat) \<le> of_int \<bar>M - N\<bar>"
    using \<open>1 \<le> \<bar>M - N\<bar>\<close> by (simp only: of_int_1_le_iff)
  have "1 * pow2 (-1074) \<le> of_int \<bar>M - N\<bar> * pow2 (-1074)"
    by (rule mult_right_mono [OF h]) simp
  ultimately show ?thesis by simp
qed

lemma fsub_is_neg:
  assumes "is_double a" and "is_double b"
  shows "is_neg (fsub (Fin a) (Fin b)) \<longleftrightarrow> a < b"
proof (cases "a = b")
  case True
  then show ?thesis by simp
next
  case False
  from dyadic_diff_bound [OF assms False] have "pow2 (-1074) \<le> \<bar>a - b\<bar>" .
  from round_f64_is_neg [OF this] show ?thesis by simp
qed

lemma round_f64_normal:
  assumes lo: "pow2 (-1022) \<le> \<bar>q\<bar>" and hi: "\<bar>q\<bar> < pow2 1023"
  shows "round_f64 neg q = Fin (rnd q) \<and> \<bar>rnd q - q\<bar> \<le> \<bar>q\<bar> * pow2 (-53)"
proof -
  have err: "\<bar>rnd q - q\<bar> \<le> \<bar>q\<bar> * pow2 (-53)" by (rule round_f64_rel_err [OF lo])
  have "pow2 (-53) \<le> pow2 0" by (rule pow2_mono) simp
  then have "\<bar>q\<bar> * pow2 (-53) \<le> \<bar>q\<bar>" by (simp add: mult_left_le)
  with err have "\<bar>rnd q\<bar> \<le> 2 * \<bar>q\<bar>" by linarith
  also have "\<dots> < 2 * pow2 1023" using hi by simp
  also have "\<dots> = pow2 1024" using pow2_add [of 1 1023] by simp
  finally have ov: "\<bar>rnd q\<bar> < pow2 1024" .
  have "pow2 (-1074) \<le> pow2 (-1022)" by (rule pow2_mono) simp
  with lo have "pow2 (-1074) \<le> \<bar>q\<bar>" by linarith
  then have "rnd q \<noteq> 0"
    using rnd_pos [of q] rnd_pos [of "- q"] by (cases "q < 0") (auto simp: rnd_uminus)
  with ov err show ?thesis by (simp add: round_f64_Fin)
qed

lemma fsub_is_neg_finite:
  assumes "f64_ok x" and "is_finite x" and "is_double b"
  shows "is_neg (fsub x (Fin b)) \<longleftrightarrow> fval x < b"
proof (cases x)
  case (Fin a)
  with assms fsub_is_neg [of a b] show ?thesis by simp
next
  case NegZero
  show ?thesis
  proof (cases "b = 0")
    case True
    with NegZero show ?thesis by (simp add: fsub_def fadd_def)
  next
    case False
    with dyadic_diff_bound [OF is_double_0 assms(3)] have "pow2 (-1074) \<le> \<bar>- b\<bar>" by simp
    from round_f64_is_neg [OF this] False NegZero show ?thesis by (simp add: fsub_def fadd_def)
  qed
qed (use assms in simp_all)

lemma rnd_ge_pow2:
  assumes k: "-1022 \<le> k" and q: "pow2 k \<le> q"
  shows "pow2 k \<le> rnd q"
proof -
  have "pow2 (-1022) \<le> pow2 k" using k by simp
  with q have n: "pow2 (-1022) \<le> \<bar>q\<bar>" by linarith
  have q0: "0 < q" using q pow2_pos [of k] by linarith
  define e where "e = rnd_exp q"
  have a: "rnd_exp q = flog2 \<bar>q\<bar>" and b: "pow2 (rnd_exp q) \<le> \<bar>q\<bar>"
    using rnd_exp_normal [OF n] by blast+
  have fe: "e = flog2 q" using a q0 by (simp add: e_def)
  have pe: "pow2 e \<le> q" using b q0 by (simp add: e_def)
  have ke: "k \<le> e" using flog2_ge [OF q] fe by simp
  have "pow2 52 = pow2 e * pow2 (52 - e)" by (simp flip: pow2_add)
  also have "\<dots> \<le> q * pow2 (52 - e)" using pe by (simp add: mult_right_mono)
  finally have "rne (pow2 52) \<le> rne (q * pow2 (52 - e))" by (rule rne_mono)
  then have m: "(2 ^ 52 :: rat) \<le> of_int (rne (q * pow2 (52 - e)))" by (simp add: pow2_numeral)
  have "pow2 k \<le> pow2 e" using ke by simp
  also have "\<dots> = 2 ^ 52 * pow2 (e - 52)" by (simp add: pow2_diff pow2_numeral)
  also have "\<dots> \<le> of_int (rne (q * pow2 (52 - e))) * pow2 (e - 52)" using m by (simp add: mult_right_mono)
  also have "\<dots> = rnd q" using q0 by (simp add: rnd_def e_def)
  finally show ?thesis .
qed

lemma round_f64_overflow: "pow2 1024 \<le> q \<Longrightarrow> round_f64 neg q = PosInf"
proof -
  assume q: "pow2 1024 \<le> q"
  have r: "pow2 1024 \<le> rnd q" by (rule rnd_ge_pow2) (simp_all add: q)
  then have "0 < rnd q" using pow2_pos [of 1024] by linarith
  with r show ?thesis by (simp add: round_f64_def Let_def)
qed

lemma round_f64_small:
  assumes "\<bar>q\<bar> < pow2 1023"
  shows "is_finite (round_f64 neg q) \<and> fval (round_f64 neg q) = rnd q"
proof -
  have e: "\<bar>rnd q - q\<bar> \<le> \<bar>q\<bar> * pow2 (-53) + pow2 (-1075)" by (rule rnd_abs_err)
  have "\<bar>q\<bar> * pow2 (-53) \<le> pow2 1023 * pow2 (-53)"
    using assms by (simp add: mult_right_mono)
  also have "\<dots> = pow2 970" by (simp flip: pow2_add)
  finally have a: "\<bar>q\<bar> * pow2 (-53) \<le> pow2 970" .
  have b: "pow2 (-1075) \<le> pow2 970" by simp
  have "pow2 970 + pow2 970 = pow2 971" by (simp add: pow2_add [of 970 1, simplified])
  also have "\<dots> \<le> pow2 1023" by simp
  finally have c: "pow2 970 + pow2 970 \<le> pow2 1023" .
  have d: "pow2 1024 = pow2 1023 + pow2 1023" by (simp add: pow2_add [of 1023 1, simplified])
  have "\<bar>rnd q\<bar> \<le> \<bar>q\<bar> + \<bar>rnd q - q\<bar>" by linarith
  then have "\<bar>rnd q\<bar> < pow2 1024" using e a b c d assms by linarith
  then show ?thesis by (simp add: round_f64_def Let_def)
qed

lemma fmul_finite:
  assumes "is_finite x" and "is_finite y" and "\<bar>fval x * fval y\<bar> < pow2 1023"
  shows "is_finite (fmul x y) \<and> fval (fmul x y) = rnd (fval x * fval y)"
proof -
  have "fmul x y = round_f64 (sbit x \<noteq> sbit y) (fval x * fval y)"
    using assms(1,2) by (cases x; cases y) (simp_all add: fmul_def)
  with round_f64_small [OF assms(3)] show ?thesis by simp
qed

lemma fsub_finite:
  assumes "is_finite x" and "is_finite y" and "\<bar>fval x - fval y\<bar> < pow2 1023"
  shows "is_finite (fsub x y) \<and> fval (fsub x y) = rnd (fval x - fval y)"
proof -
  have "fsub x y = round_f64 False (fval x - fval y) \<or> (fsub x y = NegZero \<and> fval x - fval y = 0)"
    using assms(1,2) by (cases x; cases y) (simp_all add: fsub_def fadd_def)
  with round_f64_small [OF assms(3)] show ?thesis by auto
qed

lemma rnd_scaled_close:
  assumes "\<bar>a - A\<bar> \<le> \<alpha>"
  shows "\<bar>rnd (a * k) - A * k\<bar> \<le> \<alpha> * \<bar>k\<bar> + \<bar>a * k\<bar> * pow2 (-53) + pow2 (-1075)"
proof -
  have "\<bar>a * k - A * k\<bar> = \<bar>a - A\<bar> * \<bar>k\<bar>" by (simp flip: left_diff_distrib abs_mult)
  also have "\<dots> \<le> \<alpha> * \<bar>k\<bar>" using assms by (simp add: mult_right_mono)
  finally show ?thesis using rnd_abs_err [of "a * k"] by linarith
qed

lemma rnd_diff_close:
  assumes "\<bar>a - A\<bar> \<le> \<alpha>"
  shows "\<bar>rnd (a - b) - (A - b)\<bar> \<le> \<alpha> + \<bar>a - b\<bar> * pow2 (-53) + pow2 (-1075)"
  using assms rnd_abs_err [of "a - b"] by linarith

end
