(* ===== verification/JsRuntime.thy ===== *)
theory JsRuntime
  imports Float64
begin

text \<open>The parts of the JavaScript runtime the calculator calls, modelled from ECMA-262:
  the values a JSX expression can produce (a Number or a string), \<open>ToBoolean\<close> and the
  short-circuit operator \<open>||\<close>, and the global function \<open>parseInt\<close> (19.2.5) with
  its radix argument absent.  Strings are lists of code units; code units are
  represented by Isabelle characters, which covers every code unit up to U+00FF and
  in particular every value a number input can report.\<close>

datatype js_val = JNum f64 | JStr string

fun truthy :: "f64 \<Rightarrow> bool" where
  "truthy x = (\<not> is_nan x \<and> \<not> is_zero x)"

fun to_boolean :: "js_val \<Rightarrow> bool" where
  "to_boolean (JNum x) = truthy x"
| "to_boolean (JStr s) = (s \<noteq> [])"

definition js_or :: "js_val \<Rightarrow> js_val \<Rightarrow> js_val" where
  "js_or a b = (if to_boolean a then a else b)"

text \<open>\<open>a || b\<close> where both operands are Numbers.\<close>

definition num_or :: "f64 \<Rightarrow> f64 \<Rightarrow> f64" where
  "num_or a b = (if truthy a then a else b)"

subsection \<open>parseInt\<close>

definition is_str_ws :: "char \<Rightarrow> bool" where
  "is_str_ws c \<longleftrightarrow> c \<in> set [CHR 0x09, CHR 0x0A, CHR 0x0B, CHR 0x0C, CHR 0x0D, CHR 0x20, CHR 0xA0]"

definition char_digit :: "char \<Rightarrow> int" where
  "char_digit c = (let n = int (of_char c) in
     if 48 \<le> n \<and> n \<le> 57 then n - 48
     else if 97 \<le> n \<and> n \<le> 122 then n - 87
     else if 65 \<le> n \<and> n \<le> 90 then n - 55
     else 36)"

definition is_radix_digit :: "int \<Rightarrow> char \<Rightarrow> bool" where
  "is_radix_digit R c \<longleftrightarrow> char_digit c < R"

definition digits_value :: "int \<Rightarrow> string \<Rightarrow> int" where
  "digits_value R Z = foldl (\<lambda>acc c. R * acc + char_digit c) 0 Z"

text \<open>The decimal representation of a non-negative integer (the text a number input
  reports for it, and the digits \<open>Intl.NumberFormat\<close> prints).\<close>

definition digit_char :: "int \<Rightarrow> char" where
  "digit_char d = char_of (48 + nat d)"

function dec_digits :: "int \<Rightarrow> string" where
  "dec_digits n = (if n < 10 then [digit_char n] else dec_digits (n div 10) @ [digit_char (n mod 10)])"
  by pat_completeness auto
termination by (relation "measure nat") auto

declare dec_digits.simps [simp del]

text \<open>Steps 11-16 of \<open>parseInt\<close>: the longest prefix of radix-\<open>R\<close> digits, NaN when it
  is empty, a signed zero when its value is zero, the Number value of the signed
  integer otherwise.\<close>

definition parse_digits :: "int \<Rightarrow> int \<Rightarrow> string \<Rightarrow> f64" where
  "parse_digits sign R S =
    (let Z = takeWhile (is_radix_digit R) S
     in if Z = [] then NaN
        else let mathInt = digits_value R Z in
             if mathInt = 0 then (if sign = -1 then NegZero else Fin 0)
             else f64_of_rat (of_int (sign * mathInt)))"

text \<open>Steps 1-10: leading white space, the sign, and the \<open>0x\<close> prefix that selects radix 16.\<close>

definition parseInt :: "string \<Rightarrow> f64" where
  "parseInt input =
    (let S = dropWhile is_str_ws input;
         sign = (if S \<noteq> [] \<and> hd S = CHR ''-'' then -1 else (1::int));
         S = (if S \<noteq> [] \<and> (hd S = CHR ''+'' \<or> hd S = CHR ''-'') then tl S else S);
         (R, S) = (if take 2 S = ''0x'' \<or> take 2 S = ''0X'' then (16, drop 2 S) else (10, S))
     in parse_digits sign R S)"

subsection \<open>Lemmas\<close>

lemma parse_digits_shape:
  assumes "sign \<noteq> 0"
  shows "parse_digits sign R S = NaN \<or> parse_digits sign R S = NegZero \<or>
         parse_digits sign R S = Fin 0 \<or>
         (\<exists>m. m \<noteq> 0 \<and> parse_digits sign R S = f64_of_rat (of_int m))"
proof -
  define Z where "Z = takeWhile (is_radix_digit R) S"
  define k where "k = digits_value R Z"
  have eq: "parse_digits sign R S = (if Z = [] then NaN else if k = 0 then
              (if sign = -1 then NegZero else Fin 0) else f64_of_rat (of_int (sign * k)))"
    by (simp only: parse_digits_def Let_def Z_def k_def)
  consider (none) "Z = []" | (zero) "Z \<noteq> []" "k = 0" | (num) "Z \<noteq> []" "k \<noteq> 0" by blast
  then show ?thesis
  proof cases
    case none
    then show ?thesis by (simp add: eq)
  next
    case zero
    then show ?thesis by (simp add: eq)
  next
    case num
    then have "parse_digits sign R S = f64_of_rat (of_int (sign * k))" and "sign * k \<noteq> 0"
      using assms by (simp_all only: eq if_False mult_eq_0_iff simp_thms)
    then show ?thesis by blast
  qed
qed

lemma parseInt_parse_digits: "\<exists>sign R S. sign \<noteq> 0 \<and> parseInt s = parse_digits sign R S"
proof -
  define S where "S = dropWhile is_str_ws s"
  define sign where "sign = (if S \<noteq> [] \<and> hd S = CHR ''-'' then -1 else (1::int))"
  define S' where "S' = (if S \<noteq> [] \<and> (hd S = CHR ''+'' \<or> hd S = CHR ''-'') then tl S else S)"
  define P where "P = (if take 2 S' = ''0x'' \<or> take 2 S' = ''0X'' then (16::int, drop 2 S') else (10, S'))"
  have "parseInt s = parse_digits sign (fst P) (snd P)"
    by (simp only: parseInt_def Let_def S_def sign_def S'_def P_def case_prod_unfold)
  moreover have "sign \<noteq> 0" by (simp add: sign_def)
  ultimately show ?thesis by blast
qed

lemma parseInt_shape:
  "parseInt s = NaN \<or> parseInt s = NegZero \<or> parseInt s = Fin 0 \<or>
   (\<exists>m. m \<noteq> 0 \<and> parseInt s = f64_of_rat (of_int m))"
  using parseInt_parse_digits [of s] parse_digits_shape by metis

lemma f64_of_int_shape:
  assumes "m \<noteq> 0"
  shows "f64_of_rat (of_int m) = PosInf \<or> f64_of_rat (of_int m) = NegInf \<or>
         (\<exists>k. k \<noteq> 0 \<and> is_double (of_int k) \<and> f64_of_rat (of_int m) = Fin (of_int k))"
proof -
  obtain k where k: "rnd (of_int m) = of_int k" using rnd_of_int_int by blast
  have "pow2 (-1074) \<le> \<bar>(of_int m :: rat)\<bar>"
  proof -
    have "pow2 (-1074) \<le> pow2 0" by (rule pow2_mono) simp
    also have "\<dots> \<le> \<bar>(of_int m :: rat)\<bar>" using assms by simp
    finally show ?thesis .
  qed
  then have "rnd (of_int m) \<noteq> 0"
    using rnd_pos [of "of_int m"] rnd_pos [of "- of_int m"] by (cases "m < 0") (auto simp: rnd_uminus)
  with k have k0: "k \<noteq> 0" by simp
  show ?thesis
  proof (cases "pow2 1024 \<le> \<bar>(of_int k :: rat)\<bar>")
    case True
    then have "f64_of_rat (of_int m) = (if k < 0 then NegInf else PosInf)"
      using k k0 by (simp add: f64_of_rat_def round_f64_def)
    then show ?thesis by simp
  next
    case False
    then have d: "is_double (of_int k)"
      using rnd_idem [of "of_int m"] k by (simp add: is_double_def)
    have "f64_of_rat (of_int m) = Fin (of_int k)"
      using k k0 False by (simp add: f64_of_rat_def round_f64_def)
    with d k0 show ?thesis by blast
  qed
qed

lemma parse_digits_nan: "S = [] \<or> \<not> is_radix_digit R (hd S) \<Longrightarrow> parse_digits sign R S = NaN"
  by (cases S) (auto simp: parse_digits_def)

lemma zero_is_digit: "is_radix_digit 10 (CHR ''0'')"
  by (simp add: is_radix_digit_def char_digit_def)

lemma parseInt_no_digit:
  assumes nd: "\<forall>c\<in>set s. \<not> is_radix_digit 10 c"
  shows "parseInt s = NaN"
proof -
  define S where "S = dropWhile is_str_ws s"
  define sign where "sign = (if S \<noteq> [] \<and> hd S = CHR ''-'' then -1 else (1::int))"
  define S' where "S' = (if S \<noteq> [] \<and> (hd S = CHR ''+'' \<or> hd S = CHR ''-'') then tl S else S)"
  have "set S \<subseteq> set s" by (auto simp: S_def dest: set_dropWhileD)
  moreover have "set S' \<subseteq> set S" by (auto simp: S'_def dest: list.set_sel(2))
  ultimately have sub: "set S' \<subseteq> set s" by blast
  have nx: "\<not> (take 2 S' = ''0x'' \<or> take 2 S' = ''0X'')"
  proof
    assume "take 2 S' = ''0x'' \<or> take 2 S' = ''0X''"
    then have "CHR ''0'' \<in> set S'" by (metis in_set_takeD list.set_intros(1))
    with sub nd zero_is_digit show False by blast
  qed
  define P where "P = (if take 2 S' = ''0x'' \<or> take 2 S' = ''0X'' then (16::int, drop 2 S') else (10, S'))"
  have "parseInt s = parse_digits sign (fst P) (snd P)"
    by (simp only: parseInt_def Let_def S_def sign_def S'_def P_def case_prod_unfold)
  moreover have "P = (10, S')" using nx by (simp only: P_def if_False)
  ultimately have "parseInt s = parse_digits sign 10 S'" by simp
  also have "\<dots> = NaN"
  proof (rule parse_digits_nan)
    show "S' = [] \<or> \<not> is_radix_digit 10 (hd S')"
      using sub nd by (cases S') auto
  qed
  finally show ?thesis .
qed

lemma char_digit_digit_char [simp]: "0 \<le> d \<Longrightarrow> d < 10 \<Longrightarrow> char_digit (digit_char d) = d"
proof -
  assume d: "0 \<le> d" "d < 10"
  then have "of_char (digit_char d) = 48 + nat d" by (simp add: digit_char_def)
  with d show ?thesis by (simp add: char_digit_def)
qed

lemma digits_value_snoc: "digits_value R (xs @ [c]) = R * digits_value R xs + char_digit c"
  by (simp add: digits_value_def)

lemma dec_digits_nonempty: "dec_digits n \<noteq> []"
  by (subst dec_digits.simps) simp

lemma dec_digits_digits: "0 \<le> n \<Longrightarrow> \<forall>c\<in>set (dec_digits n). is_radix_digit 10 c"
proof (induction n rule: dec_digits.induct)
  case (1 n)
  show ?case
  proof (cases "n < 10")
    case True
    with "1.prems" show ?thesis by (subst dec_digits.simps) (simp add: is_radix_digit_def)
  next
    case False
    with "1.IH" "1.prems" have "\<forall>c\<in>set (dec_digits (n div 10)). is_radix_digit 10 c" by simp
    with False show ?thesis by (subst dec_digits.simps) (simp add: is_radix_digit_def)
  qed
qed

lemma digits_value_dec_digits: "0 \<le> n \<Longrightarrow> digits_value 10 (dec_digits n) = n"
proof (induction n rule: dec_digits.induct)
  case (1 n)
  show ?case
  proof (cases "n < 10")
    case True
    with "1.prems" show ?thesis by (subst dec_digits.simps) (simp add: digits_value_def)
  next
    case False
    with "1.IH" "1.prems" have "digits_value 10 (dec_digits (n div 10)) = n div 10" by simp
    with False show ?thesis by (subst dec_digits.simps) (simp add: digits_value_snoc)
  qed
qed

lemma decimal_digit_code: "is_radix_digit 10 c \<Longrightarrow> (48::nat) \<le> of_char c \<and> of_char c \<le> (57::nat)"
  by (auto simp: is_radix_digit_def char_digit_def Let_def split: if_splits)

lemma decimal_digit_not_special:
  assumes "is_radix_digit 10 c"
  shows "\<not> is_str_ws c" "c \<noteq> CHR ''-''" "c \<noteq> CHR ''+''" "c \<noteq> CHR ''x''" "c \<noteq> CHR ''X''"
  using decimal_digit_code [OF assms] by (auto simp: is_str_ws_def)

lemma parseInt_digits:
  assumes ne: "S \<noteq> []" and dig: "\<forall>c\<in>set S. is_radix_digit 10 c"
  shows "parseInt S = parse_digits 1 10 S"
proof -
  obtain c T where S: "S = c # T" using ne by (cases S) auto
  have c: "is_radix_digit 10 c" using dig S by simp
  have nx: "\<not> (take 2 S = ''0x'' \<or> take 2 S = ''0X'')"
  proof
    assume "take 2 S = ''0x'' \<or> take 2 S = ''0X''"
    then have "CHR ''x'' \<in> set S \<or> CHR ''X'' \<in> set S" by (metis in_set_takeD list.set_intros)
    with dig decimal_digit_not_special(4,5) show False by blast
  qed
  have "dropWhile is_str_ws S = S" using S decimal_digit_not_special(1) [OF c] by simp
  moreover have "\<not> (hd S = CHR ''-'' \<or> hd S = CHR ''+'')"
    using S decimal_digit_not_special(2,3) [OF c] by simp
  ultimately show ?thesis
    using ne nx by (auto simp: parseInt_def Let_def)
qed

lemma parseInt_dec_digits:
  "0 \<le> n \<Longrightarrow> parseInt (dec_digits n) = (if n = 0 then Fin 0 else f64_of_rat (of_int n))"
proof -
  assume n: "0 \<le> n"
  have tw: "takeWhile (is_radix_digit 10) (dec_digits n) = dec_digits n"
    using dec_digits_digits [OF n] by (simp add: takeWhile_eq_all_conv)
  have "parseInt (dec_digits n) = parse_digits 1 10 (dec_digits n)"
    by (rule parseInt_digits [OF dec_digits_nonempty dec_digits_digits [OF n]])
  also have "\<dots> = (if n = 0 then Fin 0 else f64_of_rat (of_int n))"
    unfolding parse_digits_def Let_def tw digits_value_dec_digits [OF n]
    using dec_digits_nonempty [of n] by simp
  finally show ?thesis .
qed

lemma parseInt_dec_digits_overflow: "2 ^ 1024 \<le> n \<Longrightarrow> parseInt (dec_digits n) = PosInf"
proof -
  assume n: "2 ^ 1024 \<le> n"
  then have n0: "0 \<le> n" "n \<noteq> 0" by (smt (verit) zero_less_power)+
  have "pow2 1024 \<le> (of_int n :: rat)"
    using n by (simp add: pow2_numeral)
  then have "f64_of_rat (of_int n) = PosInf" by (simp add: f64_of_rat_def round_f64_overflow)
  with n0 show ?thesis by (simp add: parseInt_dec_digits)
qed

end
