(* ===== verification/Calculator.thy ===== *)
theory Calculator
  imports JsRuntime
begin

text \<open>The state and the logic of the component \<open>App\<close> of \<open>src/src/App.tsx\<close>: the
  input record \<open>HustleInput\<close> held in React state, the two constant tables, the
  initial state, \<open>handleChange\<close>, the five derived figures recomputed on every
  render, the lookup of the selected hustle type, and the event handlers of the form,
  whose runs make the component a state machine over \<open>HustleInput\<close>.\<close>

section \<open>Data\<close>

record hustle_input =
  hoursPerWeek :: f64
  hustleType :: string
  hourlyRate :: f64
  monthlyExpenses :: f64

definition em_dash :: string where
  "em_dash = [CHR 0xE2, CHR 0x80, CHR 0x94]"

definition HUSTLE_TIPS :: "string list" where
  "HUSTLE_TIPS =
    [''Consistency is key '' @ em_dash @ '' regular hours build reliable income'',
     ''Track all expenses to maximize your net earnings'',
     ''Consider taxes '' @ em_dash @ '' set aside 25-30% for self-employment tax'',
     ''Diversify hustles to reduce income volatility'']"

record hustle_type =
  htValue :: string
  label :: string
  rateRange :: string

definition HUSTLE_TYPES :: "hustle_type list" where
  "HUSTLE_TYPES =
    [\<lparr>htValue = ''rideshare'', label = ''Rideshare / Delivery'', rateRange = ''$15-30/hr''\<rparr>,
     \<lparr>htValue = ''freelance'', label = ''Freelance Services'', rateRange = ''$25-75/hr''\<rparr>,
     \<lparr>htValue = ''tutoring'', label = ''Tutoring / Teaching'', rateRange = ''$20-50/hr''\<rparr>,
     \<lparr>htValue = ''taskbased'', label = ''Task-Based (TaskRabbit, etc.)'', rateRange = ''$18-35/hr''\<rparr>,
     \<lparr>htValue = ''creative'', label = ''Creative Work (Design, Writing)'', rateRange = ''$30-80/hr''\<rparr>,
     \<lparr>htValue = ''other'', label = ''Other'', rateRange = ''Varies''\<rparr>]"

section \<open>State and handleChange\<close>

definition init_values :: hustle_input where
  "init_values = \<lparr>hoursPerWeek = Fin 10, hustleType = ''rideshare'', hourlyRate = Fin 20,
                  monthlyExpenses = Fin 50\<rparr>"

text \<open>\<open>handleChange(field, value)\<close> replaces one field of the previous state
  (\<open>{ ...prev, [field]: value }\<close>).  Every call site passes the field together with a
  value of the field's declared type, so the pair is one constructor here.\<close>

datatype field_update =
    HoursPerWeek f64
  | HustleType string
  | HourlyRate f64
  | MonthlyExpenses f64

fun handleChange :: "field_update \<Rightarrow> hustle_input \<Rightarrow> hustle_input" where
  "handleChange (HoursPerWeek x) prev = prev\<lparr>hoursPerWeek := x\<rparr>"
| "handleChange (HustleType s) prev = prev\<lparr>hustleType := s\<rparr>"
| "handleChange (HourlyRate x) prev = prev\<lparr>hourlyRate := x\<rparr>"
| "handleChange (MonthlyExpenses x) prev = prev\<lparr>monthlyExpenses := x\<rparr>"

section \<open>The income computation\<close>

record derived_income =
  weeklyIncome :: f64
  monthlyGross :: f64
  annualGross :: f64
  monthlyNet :: f64
  annualNet :: f64

definition weeksPerMonth :: f64 where
  "weeksPerMonth = f64_of_rat (433 / 100)"

definition derive :: "hustle_input \<Rightarrow> derived_income" where
  "derive values =
    (let weeklyIncome = fmul (hoursPerWeek values) (hourlyRate values);
         monthlyGross = fmul weeklyIncome weeksPerMonth;
         annualGross = fmul monthlyGross (Fin 12);
         monthlyNet = fsub monthlyGross (monthlyExpenses values);
         annualNet = fmul monthlyNet (Fin 12)
     in \<lparr>weeklyIncome = weeklyIncome, monthlyGross = monthlyGross, annualGross = annualGross,
         monthlyNet = monthlyNet, annualNet = annualNet\<rparr>)"

definition selectedHustle :: "hustle_input \<Rightarrow> hustle_type option" where
  "selectedHustle values = find (\<lambda>h. htValue h = hustleType values) HUSTLE_TYPES"

section \<open>Events of the form\<close>

datatype ui_event =
    ChangeHustleType string
  | ChangeHoursPerWeek string
  | ChangeHourlyRate string
  | ChangeMonthlyExpenses string
  | ClickCalculate

fun on_event :: "ui_event \<Rightarrow> hustle_input \<Rightarrow> hustle_input" where
  "on_event (ChangeHustleType s) v = handleChange (HustleType s) v"
| "on_event (ChangeHoursPerWeek s) v = handleChange (HoursPerWeek (num_or (parseInt s) (Fin 0))) v"
| "on_event (ChangeHourlyRate s) v = handleChange (HourlyRate (num_or (parseInt s) (Fin 0))) v"
| "on_event (ChangeMonthlyExpenses s) v =
     handleChange (MonthlyExpenses (num_or (parseInt s) (Fin 0))) v"
| "on_event ClickCalculate v = v"

fun run_events :: "ui_event list \<Rightarrow> hustle_input \<Rightarrow> hustle_input" where
  "run_events [] v = v"
| "run_events (e # es) v = run_events es (on_event e v)"

inductive reachable :: "hustle_input \<Rightarrow> bool" where
  init: "reachable init_values"
| step: "reachable v \<Longrightarrow> reachable (on_event e v)"

section \<open>Invariant of the numeric fields\<close>

text \<open>A numeric field holds an integer-valued binary64 value or an infinity: the text
  of a number input goes through \<open>parseInt\<close>, whose result is an integer, NaN or
  an infinity, and \<open>|| 0\<close> replaces NaN and both zeros by \<open>+0\<close>.\<close>

fun field_num_ok :: "f64 \<Rightarrow> bool" where
  "field_num_ok (Fin q) = (is_double q \<and> q = of_int \<lfloor>q\<rfloor>)"
| "field_num_ok NegZero = False"
| "field_num_ok NaN = False"
| "field_num_ok PosInf = True"
| "field_num_ok NegInf = True"

definition input_ok :: "hustle_input \<Rightarrow> bool" where
  "input_ok v \<longleftrightarrow> field_num_ok (hoursPerWeek v) \<and> field_num_ok (hourlyRate v) \<and>
                   field_num_ok (monthlyExpenses v)"

section \<open>Lemmas\<close>

lemma num_or_zero_ok: "field_num_ok x \<or> \<not> truthy x \<Longrightarrow> field_num_ok (num_or x (Fin 0))"
  by (auto simp: num_or_def)

lemma parsed_field_ok: "field_num_ok (num_or (parseInt s) (Fin 0))"
proof (rule num_or_zero_ok)
  have "field_num_ok (f64_of_rat (of_int m))" if "m \<noteq> 0" for m
    using f64_of_int_shape [OF that] by auto
  then show "field_num_ok (parseInt s) \<or> \<not> truthy (parseInt s)"
    using parseInt_shape [of s] by auto
qed

lemma on_event_input_ok: "input_ok v \<Longrightarrow> input_ok (on_event e v)"
  by (cases e) (simp_all add: input_ok_def parsed_field_ok)

lemma init_values_ok: "input_ok init_values"
  by (simp add: input_ok_def init_values_def is_double_int)

lemma reachable_input_ok: "reachable v \<Longrightarrow> input_ok v"
proof (induction rule: reachable.induct)
  case init
  show ?case by (rule init_values_ok)
next
  case (step v e)
  from step.IH show ?case by (rule on_event_input_ok)
qed

lemma derive_weekly: "weeklyIncome (derive v) = fmul (hoursPerWeek v) (hourlyRate v)"
  by (simp add: derive_def Let_def)

lemma derive_gross: "monthlyGross (derive v) = fmul (weeklyIncome (derive v)) weeksPerMonth"
  by (simp add: derive_def Let_def)

lemma derive_net: "monthlyNet (derive v) = fsub (monthlyGross (derive v)) (monthlyExpenses v)"
  by (simp add: derive_def Let_def)

lemma weeksPerMonth_value: "weeksPerMonth = Fin (4875146596628562 / 2 ^ 50)"
  unfolding weeksPerMonth_def by code_simp

lemma weekly_of_ints:
  assumes "hoursPerWeek v = Fin (of_int h)" and "hourlyRate v = Fin (of_int r)" and "\<bar>h * r\<bar> < 2 ^ 53"
  shows "weeklyIncome (derive v) =
           (if h * r = 0 then (if (h < 0) \<noteq> (r < 0) then NegZero else Fin 0) else Fin (of_int (h * r)))"
  using assms round_f64_int [OF assms(3)] by (simp add: derive_weekly)

lemma gross_of_weekly_int:
  assumes "weeklyIncome (derive v) = Fin (of_int w)" and "w \<noteq> 0" and "\<bar>w\<bar> < 2 ^ 53"
  shows "monthlyGross (derive v) = Fin (rnd (of_int w * (4875146596628562 / 2 ^ 50))) \<and>
         \<bar>rnd (of_int w * (4875146596628562 / 2 ^ 50)) - of_int w * (433 / 100)\<bar> \<le> \<bar>of_int w\<bar> * pow2 (-50)"
proof -
  define c :: rat where "c = 4875146596628562 / 2 ^ 50"
  define q where "q = of_int w * c"
  have w1: "1 \<le> \<bar>(of_int w :: rat)\<bar>" using assms(2) by linarith
  have wb: "\<bar>(of_int w :: rat)\<bar> < 2 ^ 53"
    using assms(3) by (metis of_int_abs of_int_less_iff of_int_numeral of_int_power)
  have c: "4 \<le> c" "c < 5" by (simp_all add: c_def)
  have aq: "\<bar>q\<bar> = \<bar>of_int w\<bar> * c" using c by (simp add: q_def abs_mult)
  have lo: "pow2 (-1022) \<le> \<bar>q\<bar>"
  proof -
    have "pow2 (-1022) \<le> pow2 0" by (rule pow2_mono) simp
    also have "\<dots> \<le> \<bar>q\<bar>" using aq w1 c by (simp add: mult_mono' order_trans [OF _ mult_right_mono [of 1]])
    finally show ?thesis .
  qed
  have hi: "\<bar>q\<bar> < pow2 1023"
  proof -
    have "\<bar>of_int w\<bar> * c < 2 ^ 53 * 5"
      by (rule mult_strict_mono) (use wb c in simp_all)
    then have "\<bar>q\<bar> < 2 ^ 53 * 5" using aq by simp
    also have "\<dots> < pow2 1023" by (simp add: pow2_numeral)
    finally show ?thesis .
  qed
  from round_f64_normal [OF lo hi] have r: "round_f64 neg q = Fin (rnd q)" for neg by simp
  from round_f64_normal [OF lo hi] have e1: "\<bar>rnd q - q\<bar> \<le> \<bar>q\<bar> * pow2 (-53)" by simp
  have e2: "\<bar>q - of_int w * (433 / 100)\<bar> = \<bar>of_int w\<bar> * (c - 433 / 100)"
    by (simp add: q_def c_def abs_mult flip: right_diff_distrib)
  have k: "c * pow2 (-53) + (c - 433 / 100) \<le> pow2 (-50)"
    by (simp add: c_def pow2_minus pow2_numeral)
  have t: "\<bar>rnd q - of_int w * (433 / 100)\<bar> \<le> \<bar>rnd q - q\<bar> + \<bar>q - of_int w * (433 / 100)\<bar>"
    using abs_triangle_ineq [of "rnd q - q" "q - of_int w * (433 / 100)"] by simp
  have e1': "\<bar>q\<bar> * pow2 (-53) = \<bar>of_int w\<bar> * (c * pow2 (-53))" using aq by simp
  have "\<bar>rnd q - of_int w * (433 / 100)\<bar> \<le> \<bar>of_int w\<bar> * (c * pow2 (-53)) + \<bar>of_int w\<bar> * (c - 433 / 100)"
    using t e1 e1' e2 by linarith
  also have "\<dots> = \<bar>of_int w\<bar> * (c * pow2 (-53) + (c - 433 / 100))" by (simp add: distrib_left)
  also have "\<dots> \<le> \<bar>of_int w\<bar> * pow2 (-50)" using k by (simp add: mult_left_mono)
  finally have b: "\<bar>rnd q - of_int w * (433 / 100)\<bar> \<le> \<bar>of_int w\<bar> * pow2 (-50)" .
  have "monthlyGross (derive v) = round_f64 ((w < 0) \<noteq> False) q"
    using assms(1) c by (simp add: derive_gross weeksPerMonth_value q_def c_def)
  with r b show ?thesis by (simp add: q_def c_def)
qed

lemma derive_fields:
  "derive v = derive (init_values\<lparr>hoursPerWeek := hoursPerWeek v, hourlyRate := hourlyRate v,
                                   monthlyExpenses := monthlyExpenses v\<rparr>)"
  by (simp add: derive_def init_values_def)

text \<open>C2. The first example of the specification, reached by typing the three values into
  the form from any state: 10 hours a week at 20 dollars with 50 dollars of monthly
  expenses give exactly 200 a week, 866 a month gross, 10392 a year gross, 816 a month
  net and 9792 a year net, with no rounding error in binary64.\<close>

theorem spec_example_10_20_50:
  "derive (run_events [ChangeHoursPerWeek ''10'', ChangeHourlyRate ''20'', ChangeMonthlyExpenses ''50''] v)
   = \<lparr>weeklyIncome = Fin 200, monthlyGross = Fin 866, annualGross = Fin 10392,
      monthlyNet = Fin 816, annualNet = Fin 9792\<rparr>"
proof -
  have p: "parseInt ''10'' = Fin 10" "parseInt ''20'' = Fin 20" "parseInt ''50'' = Fin 50"
    by code_simp+
  have "derive (run_events [ChangeHoursPerWeek ''10'', ChangeHourlyRate ''20'',
                            ChangeMonthlyExpenses ''50''] v) = derive init_values"
    by (subst derive_fields) (simp add: p num_or_def init_values_def)
  also have "\<dots> = \<lparr>weeklyIncome = Fin 200, monthlyGross = Fin 866, annualGross = Fin 10392,
                     monthlyNet = Fin 816, annualNet = Fin 9792\<rparr>"
    by code_simp
  finally show ?thesis .
qed

text \<open>C3. The second example of the specification: 40 hours a week at 25 dollars with no
  expenses give exactly 1000 a week, 4330 a month and 51960 a year.\<close>

theorem spec_example_40_25_0:
  "weeklyIncome (derive (run_events [ChangeHoursPerWeek ''40'', ChangeHourlyRate ''25'',
                                     ChangeMonthlyExpenses ''0''] v)) = Fin 1000 \<and>
   monthlyGross (derive (run_events [ChangeHoursPerWeek ''40'', ChangeHourlyRate ''25'',
                                     ChangeMonthlyExpenses ''0''] v)) = Fin 4330 \<and>
   annualGross (derive (run_events [ChangeHoursPerWeek ''40'', ChangeHourlyRate ''25'',
                                    ChangeMonthlyExpenses ''0''] v)) = Fin 51960"
proof -
  have p: "parseInt ''40'' = Fin 40" "parseInt ''25'' = Fin 25" "parseInt ''0'' = Fin 0"
    by code_simp+
  have "derive (run_events [ChangeHoursPerWeek ''40'', ChangeHourlyRate ''25'',
                            ChangeMonthlyExpenses ''0''] v) =
        derive (init_values\<lparr>hoursPerWeek := Fin 40, hourlyRate := Fin 25, monthlyExpenses := Fin 0\<rparr>)"
    by (subst derive_fields) (simp add: p num_or_def init_values_def)
  moreover have "weeklyIncome (derive (init_values\<lparr>hoursPerWeek := Fin 40, hourlyRate := Fin 25,
                   monthlyExpenses := Fin 0\<rparr>)) = Fin 1000 \<and>
                 monthlyGross (derive (init_values\<lparr>hoursPerWeek := Fin 40, hourlyRate := Fin 25,
                   monthlyExpenses := Fin 0\<rparr>)) = Fin 4330 \<and>
                 annualGross (derive (init_values\<lparr>hoursPerWeek := Fin 40, hourlyRate := Fin 25,
                   monthlyExpenses := Fin 0\<rparr>)) = Fin 51960"
    by code_simp
  ultimately show ?thesis by simp
qed

text \<open>C4. When both hours and rate are integers whose product is below \<open>2^53\<close> in
  magnitude, \<open>weeklyIncome\<close> is exactly their product: the first multiplication of
  line 32 never rounds.\<close>

theorem weekly_income_exact:
  assumes "hoursPerWeek v = Fin (of_int h)" and "hourlyRate v = Fin (of_int r)"
    and "\<bar>h * r\<bar> < 2 ^ 53"
  shows "is_finite (weeklyIncome (derive v)) \<and> fval (weeklyIncome (derive v)) = of_int (h * r)"
  using weekly_of_ints [OF assms] by auto

theorem weekly_income_exact_witness:
  "hoursPerWeek init_values = Fin (of_int 10) \<and> hourlyRate init_values = Fin (of_int 20) \<and>
   \<bar>10 * 20\<bar> < (2::int) ^ 53 \<and>
   is_finite (weeklyIncome (derive init_values)) \<and> fval (weeklyIncome (derive init_values)) = of_int (10 * 20)"
proof -
  have h: "hoursPerWeek init_values = Fin (of_int 10)" "hourlyRate init_values = Fin (of_int 20)"
          "\<bar>10 * 20\<bar> < (2::int) ^ 53"
    by (simp_all add: init_values_def)
  from weekly_income_exact [OF h] h show ?thesis by blast
qed

text \<open>C1. The monthly gross of line 33 approximates the specification's
  \<open>hoursPerWeek * hourlyRate * 4.33\<close> in exact arithmetic: for integer hours and rate
  whose product \<open>w\<close> is below \<open>2^53\<close> in magnitude it is finite and within
  \<open>|w| / 2^50\<close> of \<open>w * 433/100\<close>.  Both the rounding of the literal 4.33 and the
  rounding of the product are inside this bound.\<close>

theorem monthly_gross_error:
  assumes "hoursPerWeek v = Fin (of_int h)" and "hourlyRate v = Fin (of_int r)"
    and "\<bar>h * r\<bar> < 2 ^ 53"
  shows "is_finite (monthlyGross (derive v)) \<and>
         \<bar>fval (monthlyGross (derive v)) - of_int (h * r) * (433 / 100)\<bar> \<le> \<bar>of_int (h * r)\<bar> / 2 ^ 50"
proof (cases "h * r = 0")
  case True
  with weekly_of_ints [OF assms] have "weeklyIncome (derive v) = NegZero \<or> weeklyIncome (derive v) = Fin 0"
    by auto
  then show ?thesis using True by (auto simp: derive_gross weeksPerMonth_value fmul_def)
next
  case False
  with weekly_of_ints [OF assms] have w: "weeklyIncome (derive v) = Fin (of_int (h * r))" by simp
  from gross_of_weekly_int [OF w False assms(3)] show ?thesis
    by (simp add: pow2_minus pow2_numeral)
qed

theorem monthly_gross_error_witness:
  "hoursPerWeek init_values = Fin (of_int 10) \<and> hourlyRate init_values = Fin (of_int 20) \<and>
   \<bar>10 * 20\<bar> < (2::int) ^ 53 \<and>
   is_finite (monthlyGross (derive init_values)) \<and>
   \<bar>fval (monthlyGross (derive init_values)) - of_int (10 * 20) * (433 / 100)\<bar> \<le> \<bar>of_int (10 * 20)\<bar> / 2 ^ 50"
proof -
  have h: "hoursPerWeek init_values = Fin (of_int 10)" "hourlyRate init_values = Fin (of_int 20)"
          "\<bar>10 * 20\<bar> < (2::int) ^ 53"
    by (simp_all add: init_values_def)
  from monthly_gross_error [OF h] h show ?thesis by blast
qed

text \<open>C5. No clamping of the net figure: in every reachable state where the gross and the
  expenses are finite, \<open>monthlyNet\<close> is negative exactly when the gross is below the
  expenses (the rounding of the subtraction never moves a nonzero difference to zero
  or across zero).\<close>

theorem monthly_net_sign:
  assumes "reachable v" and "is_finite (monthlyGross (derive v))" and "is_finite (monthlyExpenses v)"
  shows "is_neg (monthlyNet (derive v)) \<longleftrightarrow> fval (monthlyGross (derive v)) < fval (monthlyExpenses v)"
proof -
  from reachable_input_ok [OF assms(1)] have "field_num_ok (monthlyExpenses v)" by (simp add: input_ok_def)
  with assms(3) obtain e where e: "monthlyExpenses v = Fin e" "is_double e"
    by (cases "monthlyExpenses v") auto
  have "f64_ok (monthlyGross (derive v))" by (simp add: derive_gross fmul_ok)
  from fsub_is_neg_finite [OF this assms(2) e(2)] e show ?thesis by (simp add: derive_net)
qed

theorem monthly_net_sign_witness:
  "reachable init_values \<and> is_finite (monthlyGross (derive init_values)) \<and>
   is_finite (monthlyExpenses init_values) \<and>
   (is_neg (monthlyNet (derive init_values)) \<longleftrightarrow>
    fval (monthlyGross (derive init_values)) < fval (monthlyExpenses init_values))"
proof -
  have h: "reachable init_values" by (rule reachable.init)
  have g: "is_finite (monthlyGross (derive init_values))" by code_simp
  have e: "is_finite (monthlyExpenses init_values)" by (simp add: init_values_def)
  from monthly_net_sign [OF h g e] h g e show ?thesis by blast
qed

text \<open>C6. In every state the form can reach, each numeric field holds neither NaN nor
  \<open>-0\<close>, and a finite value there is an integer that is a binary64 value.\<close>

theorem reachable_numeric_fields:
  assumes "reachable v"
  shows "\<forall>x\<in>{hoursPerWeek v, hourlyRate v, monthlyExpenses v}.
           x \<noteq> NaN \<and> x \<noteq> NegZero \<and> (\<forall>q. x = Fin q \<longrightarrow> is_double q \<and> q \<in> \<int>)"
proof -
  have ok: "field_num_ok x \<Longrightarrow> x \<noteq> NaN \<and> x \<noteq> NegZero \<and> (\<forall>q. x = Fin q \<longrightarrow> is_double q \<and> q \<in> \<int>)" for x
    by (cases x) (auto, metis Ints_of_int)
  from reachable_input_ok [OF assms] show ?thesis by (auto simp: input_ok_def dest: ok)
qed

theorem reachable_numeric_fields_witness:
  "reachable (on_event (ChangeHoursPerWeek ''abc'') init_values) \<and>
   hoursPerWeek (on_event (ChangeHoursPerWeek ''abc'') init_values) \<noteq> NaN \<and>
   hoursPerWeek (on_event (ChangeHoursPerWeek ''abc'') init_values) \<noteq> NegZero \<and>
   hourlyRate (on_event (ChangeHoursPerWeek ''abc'') init_values) \<noteq> NaN \<and>
   hourlyRate (on_event (ChangeHoursPerWeek ''abc'') init_values) \<noteq> NegZero \<and>
   monthlyExpenses (on_event (ChangeHoursPerWeek ''abc'') init_values) \<noteq> NaN \<and>
   monthlyExpenses (on_event (ChangeHoursPerWeek ''abc'') init_values) \<noteq> NegZero"
proof -
  have h: "reachable (on_event (ChangeHoursPerWeek ''abc'') init_values)"
    by (rule reachable.step [OF reachable.init])
  from reachable_numeric_fields [OF h] h show ?thesis by simp
qed

text \<open>C7. Text with no decimal digit typed into any of the three number inputs sets that
  field to \<open>+0\<close>, with no error: \<open>parseInt\<close> gives NaN and \<open>|| 0\<close> replaces it.\<close>

theorem parse_fallback_zero:
  assumes "\<forall>c\<in>set s. \<not> is_radix_digit 10 c"
  shows "hoursPerWeek (on_event (ChangeHoursPerWeek s) v) = Fin 0 \<and>
         hourlyRate (on_event (ChangeHourlyRate s) v) = Fin 0 \<and>
         monthlyExpenses (on_event (ChangeMonthlyExpenses s) v) = Fin 0"
  using parseInt_no_digit [OF assms] by (simp add: num_or_def)

theorem parse_fallback_zero_witness:
  "\<not> is_radix_digit 10 (CHR ''a'') \<and> \<not> is_radix_digit 10 (CHR ''b'') \<and>
   \<not> is_radix_digit 10 (CHR ''c'') \<and>
   hoursPerWeek (on_event (ChangeHoursPerWeek ''abc'') init_values) = Fin 0 \<and>
   hourlyRate (on_event (ChangeHourlyRate ''abc'') init_values) = Fin 0 \<and>
   monthlyExpenses (on_event (ChangeMonthlyExpenses ''abc'') init_values) = Fin 0"
proof -
  have c: "\<not> is_radix_digit 10 (CHR ''a'')" "\<not> is_radix_digit 10 (CHR ''b'')"
          "\<not> is_radix_digit 10 (CHR ''c'')"
    by (simp_all add: is_radix_digit_def char_digit_def)
  then have h: "\<forall>c\<in>set ''abc''. \<not> is_radix_digit 10 c" by simp
  from parse_fallback_zero [OF h] c show ?thesis by blast
qed

lemma parsed_dec_digits:
  assumes "0 \<le> n" and "n < 2 ^ 53"
  shows "num_or (parseInt (dec_digits n)) (Fin 0) = Fin (of_int n)"
proof (cases "n = 0")
  case True
  then show ?thesis using parseInt_dec_digits [OF assms(1)] by (simp add: num_or_def)
next
  case False
  have "f64_of_rat (of_int n) = Fin (of_int n)"
    using round_f64_int [of n False] assms False by (simp add: f64_of_rat_def)
  with False show ?thesis using parseInt_dec_digits [OF assms(1)] by (simp add: num_or_def)
qed

text \<open>C13. Typing the decimal digits of a whole number below \<open>2^53\<close> into a number
  input stores exactly that number in its field and leaves the other fields unchanged.\<close>

theorem typed_integer_roundtrip:
  assumes "0 \<le> n" and "n < 2 ^ 53"
  shows "on_event (ChangeHoursPerWeek (dec_digits n)) v = v\<lparr>hoursPerWeek := Fin (of_int n)\<rparr> \<and>
         on_event (ChangeHourlyRate (dec_digits n)) v = v\<lparr>hourlyRate := Fin (of_int n)\<rparr> \<and>
         on_event (ChangeMonthlyExpenses (dec_digits n)) v = v\<lparr>monthlyExpenses := Fin (of_int n)\<rparr>"
  by (simp add: parsed_dec_digits [OF assms])

theorem typed_integer_roundtrip_witness:
  "on_event (ChangeHoursPerWeek (dec_digits 40)) init_values = init_values\<lparr>hoursPerWeek := Fin 40\<rparr> \<and>
   on_event (ChangeHourlyRate (dec_digits 40)) init_values = init_values\<lparr>hourlyRate := Fin 40\<rparr> \<and>
   on_event (ChangeMonthlyExpenses (dec_digits 40)) init_values = init_values\<lparr>monthlyExpenses := Fin 40\<rparr>"
  using typed_integer_roundtrip [of 40 init_values] by simp

text \<open>C14. A number input accepts decimal and exponent notation, but \<open>parseInt\<close> keeps
  only the leading digits: a rate typed as \<open>12.50\<close> is stored as 12 and 1e3 hours
  as 1.\<close>

theorem typed_decimal_truncated:
  "hourlyRate (on_event (ChangeHourlyRate ''12.50'') v) = Fin 12 \<and>
   hoursPerWeek (on_event (ChangeHoursPerWeek ''1e3'') v) = Fin 1"
proof -
  have "parseInt ''12.50'' = Fin 12" "parseInt ''1e3'' = Fin 1" by code_simp+
  then show ?thesis by (simp add: num_or_def)
qed

end
