(* ===== verification/IntlFormat.thy ===== *)
theory IntlFormat
  imports JsRuntime
begin

text \<open>\<open>Number.prototype.toLocaleString\<close> with the options the program passes at
  \<open>src/src/App.tsx\<close> line 38: locale \<open>en-US\<close>, style \<open>currency\<close>, currency \<open>USD\<close>, no
  fraction digits.  ECMA-402 (FormatNumericToString, ToRawFixed with rounding mode
  \<open>halfExpand\<close>) rounds the magnitude of the number to the nearest integer, halves away
  from zero; the sign is printed for every negative number and for \<open>-0\<close>, also when
  the magnitude rounds to zero; the digits are grouped by three with commas after the
  currency sign \<open>$\<close>.  \<open>NaN\<close> prints as \<open>NaN\<close> and the infinities as the sign \<open>\<infinity>\<close>
  (U+221E, written here as its UTF-8 bytes).  The reader \<open>money_value\<close> reads a
  printed amount back; the lemmas show that printing and reading round-trip and that
  the printed amount is within half a dollar of the number.\<close>

definition round_half_expand :: "rat \<Rightarrow> int" where
  "round_half_expand q = \<lfloor>q + 1/2\<rfloor>"

definition infinity_sign :: string where
  "infinity_sign = [CHR 0xE2, CHR 0x88, CHR 0x9E]"

function group3 :: "string \<Rightarrow> string" where
  "group3 ds = (if length ds \<le> 3 then ds
     else group3 (take (length ds - 3) ds) @ CHR '','' # drop (length ds - 3) ds)"
  by pat_completeness auto
termination by (relation "measure length") auto

declare group3.simps [simp del]

fun usd0_body :: "f64 \<Rightarrow> string" where
  "usd0_body NaN = ''NaN''"
| "usd0_body PosInf = infinity_sign"
| "usd0_body NegInf = infinity_sign"
| "usd0_body NegZero = ''0''"
| "usd0_body (Fin q) = group3 (dec_digits (round_half_expand \<bar>q\<bar>))"

definition toLocaleString_usd0 :: "f64 \<Rightarrow> string" where
  "toLocaleString_usd0 x = (if sbit x then ''-'' else '''') @ ''$'' @ usd0_body x"

definition fmt :: "f64 \<Rightarrow> string" where
  "fmt n = toLocaleString_usd0 n"

text \<open>Reading a printed amount back: an optional minus sign, the dollar sign, and
  decimal digits with grouping commas.\<close>

definition money_value :: "string \<Rightarrow> int option" where
  "money_value s = (let neg = (take 1 s = ''-''); s1 = (if neg then drop 1 s else s) in
     if take 1 s1 = ''$'' then
       (let ds = filter (\<lambda>c. c \<noteq> CHR '','') (drop 1 s1) in
        if ds \<noteq> [] \<and> list_all (is_radix_digit 10) ds
        then Some ((if neg then -1 else 1) * digits_value 10 ds) else None)
     else None)"

definition shown_amount :: "f64 \<Rightarrow> int" where
  "shown_amount x = (if sbit x then - round_half_expand \<bar>fval x\<bar> else round_half_expand \<bar>fval x\<bar>)"

lemma round_half_expand_nonneg: "0 \<le> q \<Longrightarrow> 0 \<le> round_half_expand q"
  by (simp add: round_half_expand_def)

lemma round_half_expand_0 [simp]: "round_half_expand 0 = 0"
  by (simp add: round_half_expand_def floor_eq_iff)

lemma round_half_expand_err: "\<bar>of_int (round_half_expand q) - q\<bar> \<le> 1/2"
  unfolding round_half_expand_def
proof -
  have "of_int \<lfloor>q + 1/2\<rfloor> \<le> q + 1/2" "q + 1/2 < of_int \<lfloor>q + 1/2\<rfloor> + 1"
    using floor_correct [of "q + 1/2"] by simp_all
  then show "\<bar>of_int \<lfloor>q + 1/2\<rfloor> - q\<bar> \<le> 1/2" by (simp only: abs_le_iff) linarith
qed

lemma group3_filter: "CHR '','' \<notin> set ds \<Longrightarrow> filter (\<lambda>c. c \<noteq> CHR '','') (group3 ds) = ds"
proof (induction ds rule: group3.induct)
  case (1 ds)
  show ?case
  proof (cases "length ds \<le> 3")
    case True
    with "1.prems" show ?thesis by (subst group3.simps) (auto simp: filter_id_conv)
  next
    case False
    have "CHR '','' \<notin> set (take (length ds - 3) ds)"
      using "1.prems" by (meson in_set_takeD)
    with "1.IH" False have IH: "filter (\<lambda>c. c \<noteq> CHR '','') (group3 (take (length ds - 3) ds))
        = take (length ds - 3) ds" by simp
    have "filter (\<lambda>c. c \<noteq> CHR '','') (drop (length ds - 3) ds) = drop (length ds - 3) ds"
      using "1.prems" by (auto simp: filter_id_conv dest: in_set_dropD)
    with IH False show ?thesis
      by (subst group3.simps) simp
  qed
qed

lemma digit_not_comma: "is_radix_digit 10 c \<Longrightarrow> c \<noteq> CHR '',''"
  by (auto simp: is_radix_digit_def char_digit_def)

lemma filter_group3_dec_digits:
  "0 \<le> n \<Longrightarrow> filter (\<lambda>c. c \<noteq> CHR '','') (group3 (dec_digits n)) = dec_digits n"
  using dec_digits_digits [of n] digit_not_comma by (blast intro: group3_filter)

lemma money_value_signed:
  assumes n: "0 \<le> n"
  shows "money_value ((if neg then ''-'' else '''') @ ''$'' @ group3 (dec_digits n)) =
         Some (if neg then - n else n)"
proof -
  define ds where "ds = dec_digits n"
  have f: "filter (\<lambda>c. c \<noteq> CHR '','') (group3 ds) = ds"
    using filter_group3_dec_digits [OF n] by (simp add: ds_def)
  have a: "ds \<noteq> [] \<and> list_all (is_radix_digit 10) ds"
    using dec_digits_nonempty dec_digits_digits [OF n] by (simp add: ds_def list_all_iff)
  have v: "digits_value 10 ds = n" using digits_value_dec_digits [OF n] by (simp add: ds_def)
  show ?thesis
    unfolding ds_def [symmetric] by (cases neg) (simp_all add: money_value_def Let_def f a v)
qed

lemma usd0_body_NegZero: "usd0_body NegZero = group3 (dec_digits (round_half_expand \<bar>fval NegZero\<bar>))"
  by code_simp

lemma fmt_finite:
  "is_finite x \<Longrightarrow>
   fmt x = (if sbit x then ''-'' else '''') @ ''$'' @ group3 (dec_digits (round_half_expand \<bar>fval x\<bar>))"
  by (cases x) (simp_all add: fmt_def toLocaleString_usd0_def usd0_body_NegZero del: usd0_body.simps(4))

lemma fmt_money_value:
  assumes x: "is_finite x"
  shows "money_value (fmt x) = Some (shown_amount x)"
proof -
  have "money_value (fmt x) =
        money_value ((if sbit x then ''-'' else '''') @ ''$'' @ group3 (dec_digits (round_half_expand \<bar>fval x\<bar>)))"
    by (simp only: fmt_finite [OF x])
  also have "\<dots> = Some (if sbit x then - round_half_expand \<bar>fval x\<bar> else round_half_expand \<bar>fval x\<bar>)"
    by (rule money_value_signed) (simp add: round_half_expand_nonneg)
  finally show ?thesis by (simp add: shown_amount_def)
qed

lemma shown_amount_err: "is_finite x \<Longrightarrow> \<bar>of_int (shown_amount x) - fval x\<bar> \<le> 1/2"
proof (cases x)
  case (Fin q)
  have e: "\<bar>of_int (round_half_expand \<bar>q\<bar>) - \<bar>q\<bar>\<bar> \<le> 1/2" by (rule round_half_expand_err)
  show ?thesis
  proof (cases "q < 0")
    case True
    then have "of_int (shown_amount x) - fval x = - (of_int (round_half_expand \<bar>q\<bar>) - \<bar>q\<bar>)"
      using Fin by (simp add: shown_amount_def)
    with e show ?thesis by (simp only: abs_minus_cancel)
  next
    case False
    with e Fin show ?thesis by (simp add: shown_amount_def)
  qed
qed (simp_all add: shown_amount_def)

lemma fmt_hd: "hd (fmt x) = CHR ''-'' \<longleftrightarrow> sbit x"
  by (cases x) (simp_all add: fmt_def toLocaleString_usd0_def)

lemma round_half_expand_eq_0: "0 \<le> q \<Longrightarrow> round_half_expand q = 0 \<longleftrightarrow> q < 1/2"
  by (simp add: round_half_expand_def floor_eq_iff) linarith

lemma group3_dec_digits_0: "group3 (dec_digits 0) = ''0''"
  by code_simp

lemma money_value_minus_zero: "money_value ''-$0'' = Some 0"
  by code_simp

lemma fmt_not_finite: "\<not> is_finite x \<Longrightarrow> fmt x \<noteq> ''-$0''"
  by (cases x) (simp_all add: fmt_def toLocaleString_usd0_def infinity_sign_def)

text \<open>C8. The currency format of line 38 shows every finite number as a whole dollar
  amount within half a dollar of it, with a minus sign exactly when the number is
  negative or \<open>-0\<close>, and the grouping commas read back to the amount.\<close>

theorem fmt_within_half_dollar:
  assumes "is_finite x"
  shows "\<exists>k. money_value (fmt x) = Some k \<and> \<bar>of_int k - fval x\<bar> \<le> 1/2 \<and>
             (hd (fmt x) = CHR ''-'' \<longleftrightarrow> sbit x)"
  using fmt_money_value [OF assms] shown_amount_err [OF assms] fmt_hd by blast

theorem fmt_within_half_dollar_witness:
  "\<exists>k. money_value (fmt (Fin (- 433 / 2))) = Some k \<and> \<bar>of_int k - (- 433 / 2)\<bar> \<le> (1/2 :: rat) \<and>
       (hd (fmt (Fin (- 433 / 2))) = CHR ''-'' \<longleftrightarrow> sbit (Fin (- 433 / 2)))"
  using fmt_within_half_dollar [of "Fin (- 433 / 2)"] by simp

text \<open>C9. The format prints \<open>-$0\<close> exactly for \<open>-0\<close> and for the negative numbers above
  \<open>-1/2\<close>: a negative amount that rounds to zero dollars keeps its minus sign.\<close>

theorem fmt_minus_zero:
  "fmt x = ''-$0'' \<longleftrightarrow> x = NegZero \<or> (\<exists>q. x = Fin q \<and> - 1/2 < q \<and> q < 0)"
proof
  assume f: "fmt x = ''-$0''"
  then have fin: "is_finite x" using fmt_not_finite by blast
  have s: "sbit x" using fmt_hd [of x] f by simp
  have "shown_amount x = 0" using fmt_money_value [OF fin] f money_value_minus_zero by simp
  with s have "round_half_expand \<bar>fval x\<bar> = 0" by (simp add: shown_amount_def)
  then have "\<bar>fval x\<bar> < 1/2" by (simp add: round_half_expand_eq_0)
  with fin s show "x = NegZero \<or> (\<exists>q. x = Fin q \<and> - 1/2 < q \<and> q < 0)" by (cases x) auto
next
  assume "x = NegZero \<or> (\<exists>q. x = Fin q \<and> - 1/2 < q \<and> q < 0)"
  then have fin: "is_finite x" and s: "sbit x" and r: "round_half_expand \<bar>fval x\<bar> = 0"
    by (auto simp: round_half_expand_eq_0)
  show "fmt x = ''-$0''" by (simp add: fmt_finite [OF fin] s r group3_dec_digits_0)
qed

end
