(* ===== verification/View.thy ===== *)
theory View
  imports Calculator IntlFormat
begin

text \<open>What the component \<open>App\<close> of \<open>src/src/App.tsx\<close> renders (lines 42-162), as the
  record of the dynamic content of the page: the value and the options of the hustle
  type select, the rate range hint, the value and the placeholder of the three number
  inputs, the figures of the results panel, the tips list and the rows of the income
  breakdown table.  Styling, the static headings, the disclaimer and the advertisement
  boxes carry no data and are the constant \<open>static_text\<close>.  A page is a function of the
  state: \<open>render\<close> recomputes it from \<open>HustleInput\<close>, as React re-renders the component
  after every \<open>setValues\<close>.\<close>

record number_input =
  niValue :: js_val
  niPlaceholder :: string

record page =
  pgHustleValue :: string
  pgOptions :: "(string \<times> string) list"
  pgRateHint :: "string option"
  pgHours :: number_input
  pgRate :: number_input
  pgExpenses :: number_input
  pgHero :: string
  pgWeekly :: string
  pgAnnual :: string
  pgNetMonth :: string
  pgTips :: "string list"
  pgBreakdown :: "(string \<times> string \<times> string) list"

definition number_field :: "f64 \<Rightarrow> string \<Rightarrow> number_input" where
  "number_field x placeholder = \<lparr>niValue = js_or (JNum x) (JStr ''''), niPlaceholder = placeholder\<rparr>"

definition bullet :: string where
  "bullet = [CHR 0xE2, CHR 0x80, CHR 0xA2]"

definition copyright_sign :: string where
  "copyright_sign = [CHR 0xC2, CHR 0xA9]"

definition static_text :: "string list" where
  "static_text =
    [''Side Hustle Income Estimator (2026)'', ''Estimate your potential gig economy earnings'',
     ''Type of Side Hustle'', ''Hours Per Week'', ''Hourly Rate ($)'', ''Monthly Expenses ($)'',
     ''Gas, supplies, platform fees, etc.'', ''Calculate Income'', ''Estimated Monthly Income'',
     ''Before expenses'', ''Weekly'', ''Annual'', ''Net/Month'', ''Side Hustle Tips'',
     ''Advertisement'', ''Income Breakdown'', ''Category'', ''Monthly'', ''Annual'',
     ''Gross Income'', ''Expenses'', ''Net Income'',
     ''This calculator provides estimates for potential side hustle income based on hours '' @
     ''worked and hourly rates. Actual earnings vary by location, demand, platform fees, and '' @
     ''individual circumstances. These figures are estimates only and do not account for taxes, '' @
     ''vehicle depreciation, or variable income fluctuations common in gig work. Consult a '' @
     ''financial advisor for personalized guidance on managing self-employment income.'',
     bullet @ '' Estimates only'', bullet @ '' Not financial advice'', bullet @ '' Free to use'',
     copyright_sign @ '' 2026 Side Hustle Income Estimator'', ''Advertisement'']"

definition render :: "hustle_input \<Rightarrow> page" where
  "render values =
    (let d = derive values
     in \<lparr>pgHustleValue = hustleType values,
         pgOptions = map (\<lambda>t. (htValue t, label t)) HUSTLE_TYPES,
         pgRateHint = map_option (\<lambda>h. ''Typical rate range: '' @ rateRange h) (selectedHustle values),
         pgHours = number_field (hoursPerWeek values) ''10'',
         pgRate = number_field (hourlyRate values) ''20'',
         pgExpenses = number_field (monthlyExpenses values) ''50'',
         pgHero = fmt (monthlyGross d),
         pgWeekly = fmt (weeklyIncome d),
         pgAnnual = fmt (annualGross d),
         pgNetMonth = fmt (monthlyNet d),
         pgTips = HUSTLE_TIPS,
         pgBreakdown =
           [(''Gross Income'', fmt (monthlyGross d), fmt (annualGross d)),
            (''Expenses'', ''-'' @ fmt (monthlyExpenses values),
                           ''-'' @ fmt (fmul (monthlyExpenses values) (Fin 12))),
            (''Net Income'', fmt (monthlyNet d), fmt (annualNet d))]\<rparr>)"

text \<open>The events a user can raise on the rendered page: a select emits only the value
  of one of its options; a number input emits any text.\<close>

fun event_of_page :: "page \<Rightarrow> ui_event \<Rightarrow> bool" where
  "event_of_page p (ChangeHustleType s) = (s \<in> set (map fst (pgOptions p)))"
| "event_of_page p _ = True"

inductive ui_reachable :: "hustle_input \<Rightarrow> bool" where
  init: "ui_reachable init_values"
| step: "ui_reachable v \<Longrightarrow> event_of_page (render v) e \<Longrightarrow> ui_reachable (on_event e v)"

section \<open>Lemmas\<close>

lemma render_simps:
  "pgHustleValue (render v) = hustleType v"
  "pgOptions (render v) = map (\<lambda>t. (htValue t, label t)) HUSTLE_TYPES"
  "pgRateHint (render v) = map_option (\<lambda>h. ''Typical rate range: '' @ rateRange h) (selectedHustle v)"
  "pgHours (render v) = number_field (hoursPerWeek v) ''10''"
  "pgRate (render v) = number_field (hourlyRate v) ''20''"
  "pgExpenses (render v) = number_field (monthlyExpenses v) ''50''"
  "pgNetMonth (render v) = fmt (monthlyNet (derive v))"
  by (simp_all add: render_def Let_def)

lemma option_values: "fst ` set (pgOptions (render v)) = htValue ` set HUSTLE_TYPES"
  by (simp add: render_simps image_image)

lemma selectedHustle_None: "selectedHustle v = None \<longleftrightarrow> hustleType v \<notin> htValue ` set HUSTLE_TYPES"
  by (auto simp: selectedHustle_def find_None_iff image_iff)

lemma on_event_hustleType:
  "hustleType (on_event e v) = (case e of ChangeHustleType s \<Rightarrow> s | _ \<Rightarrow> hustleType v)"
  by (cases e) simp_all

lemma ui_reachable_known_type: "ui_reachable v \<Longrightarrow> hustleType v \<in> htValue ` set HUSTLE_TYPES"
proof (induction rule: ui_reachable.induct)
  case init
  show ?case by (simp add: init_values_def HUSTLE_TYPES_def)
next
  case (step v e)
  then show ?case by (cases e) (simp_all add: option_values)
qed

lemma ui_reachable_reachable: "ui_reachable v \<Longrightarrow> reachable v"
  by (induction rule: ui_reachable.induct) (auto intro: reachable.intros)

lemma number_field_value:
  "field_num_ok x \<Longrightarrow> niValue (number_field x p) = (if x = Fin 0 then JStr '''' else JNum x)"
  by (cases x) (auto simp: number_field_def js_or_def)

text \<open>C10. Selecting a hustle type the table does not list shows no rate range hint,
  and a listed one shows it; nothing fails either way.\<close>

theorem rate_hint_absent:
  "pgRateHint (render v) = None \<longleftrightarrow> hustleType v \<notin> htValue ` set HUSTLE_TYPES"
  by (simp add: render_simps selectedHustle_None)

text \<open>C11. In every state reached by events the rendered page can raise (a select
  emits only the value of one of its options), the select shows one of its options and
  the rate range hint is present.\<close>

theorem ui_reachable_rate_hint:
  assumes "ui_reachable v"
  shows "pgHustleValue (render v) \<in> set (map fst (pgOptions (render v))) \<and> pgRateHint (render v) \<noteq> None"
  using ui_reachable_known_type [OF assms] by (simp add: option_values render_simps selectedHustle_None)

theorem ui_reachable_rate_hint_witness:
  "ui_reachable (on_event (ChangeHustleType ''tutoring'') init_values) \<and>
   pgHustleValue (render (on_event (ChangeHustleType ''tutoring'') init_values))
     \<in> set (map fst (pgOptions (render (on_event (ChangeHustleType ''tutoring'') init_values)))) \<and>
   pgRateHint (render (on_event (ChangeHustleType ''tutoring'') init_values)) \<noteq> None"
proof -
  have "ui_reachable (on_event (ChangeHustleType ''tutoring'') init_values)"
    by (rule ui_reachable.step [OF ui_reachable.init]) (simp add: option_values HUSTLE_TYPES_def)
  from ui_reachable_rate_hint [OF this] this show ?thesis by blast
qed

text \<open>C12. A number input shows the field's number, except that it shows the empty
  text, and so its placeholder, exactly when the field holds 0 (\<open>value || ''\<close>).\<close>

theorem number_inputs_shown:
  assumes "reachable v"
  shows "niValue (pgHours (render v)) = (if hoursPerWeek v = Fin 0 then JStr '''' else JNum (hoursPerWeek v)) \<and>
         niValue (pgRate (render v)) = (if hourlyRate v = Fin 0 then JStr '''' else JNum (hourlyRate v)) \<and>
         niValue (pgExpenses (render v)) =
           (if monthlyExpenses v = Fin 0 then JStr '''' else JNum (monthlyExpenses v))"
  using reachable_input_ok [OF assms] by (simp add: input_ok_def render_simps number_field_value)

theorem number_inputs_shown_witness:
  "reachable (on_event (ChangeHoursPerWeek ''0'') init_values) \<and>
   niValue (pgHours (render (on_event (ChangeHoursPerWeek ''0'') init_values))) = JStr '''' \<and>
   niPlaceholder (pgHours (render (on_event (ChangeHoursPerWeek ''0'') init_values))) = ''10''"
proof -
  have r: "reachable (on_event (ChangeHoursPerWeek ''0'') init_values)"
    by (rule reachable.step [OF reachable.init])
  have z: "hoursPerWeek (on_event (ChangeHoursPerWeek ''0'') init_values) = Fin 0"
    by code_simp
  from number_inputs_shown [OF r] z r show ?thesis by (simp add: render_simps number_field_def)
qed

lemma derive_nan:
  "weeklyIncome (derive v) = NaN \<Longrightarrow>
   monthlyGross (derive v) = NaN \<and> annualGross (derive v) = NaN \<and> monthlyNet (derive v) = NaN \<and>
   annualNet (derive v) = NaN"
  by (simp add: derive_def Let_def fmul_def fsub_def fadd_def)

lemma fmt_NaN: "fmt NaN = ''$NaN''"
  by (simp add: fmt_def toLocaleString_usd0_def)

text \<open>C15. No guard stops the figures from becoming NaN: typing a whole number of at
  least \<open>2^1024\<close> hours (309 digits, a valid number input) makes the hours field
  \<open>Infinity\<close>, and with a rate of 0 every income figure of the results panel shows
  \<open>$NaN\<close>.\<close>

theorem huge_hours_show_nan:
  assumes "2 ^ 1024 \<le> n"
  shows "pgHero (render (run_events [ChangeHoursPerWeek (dec_digits n), ChangeHourlyRate ''0''] v)) = ''$NaN'' \<and>
         pgWeekly (render (run_events [ChangeHoursPerWeek (dec_digits n), ChangeHourlyRate ''0''] v)) = ''$NaN'' \<and>
         pgAnnual (render (run_events [ChangeHoursPerWeek (dec_digits n), ChangeHourlyRate ''0''] v)) = ''$NaN'' \<and>
         pgNetMonth (render (run_events [ChangeHoursPerWeek (dec_digits n), ChangeHourlyRate ''0''] v)) = ''$NaN''"
proof -
  have z: "parseInt ''0'' = Fin 0" by code_simp
  have w: "weeklyIncome (derive (run_events [ChangeHoursPerWeek (dec_digits n), ChangeHourlyRate ''0''] v)) = NaN"
    using parseInt_dec_digits_overflow [OF assms] z by (simp add: derive_weekly num_or_def fmul_def)
  then show ?thesis
    by (simp add: render_def Let_def derive_nan fmt_NaN)
qed

theorem huge_hours_show_nan_witness:
  "pgHero (render (run_events [ChangeHoursPerWeek (dec_digits (2 ^ 1024)), ChangeHourlyRate ''0''] init_values)) = ''$NaN'' \<and>
   pgWeekly (render (run_events [ChangeHoursPerWeek (dec_digits (2 ^ 1024)), ChangeHourlyRate ''0''] init_values)) = ''$NaN'' \<and>
   pgAnnual (render (run_events [ChangeHoursPerWeek (dec_digits (2 ^ 1024)), ChangeHourlyRate ''0''] init_values)) = ''$NaN'' \<and>
   pgNetMonth (render (run_events [ChangeHoursPerWeek (dec_digits (2 ^ 1024)), ChangeHourlyRate ''0''] init_values)) = ''$NaN''"
  using huge_hours_show_nan [of "2 ^ 1024" init_values] by simp

end
