(* ===== verification/IncomeSpec.thy ===== *)
theory IncomeSpec
  imports Calculator
begin
















end
