(* ===== verification/Spec2Isabelle.thy ===== *)
theory Spec2Isabelle
  imports View IncomeSpec
begin

text \<open>
  Verification library for the side-hustle income estimator (\<open>src/src/App.tsx\<close>).

  \<^bold>\<open>The program.\<close> One React component, \<open>App\<close>, holds a record \<open>HustleInput\<close>
  (hours per week, hustle type, hourly rate, monthly expenses) in React state.  Four
  form handlers replace one field each through \<open>handleChange\<close>; the three numeric
  inputs pass their text through \<open>parseInt(...) || 0\<close>.  Every render recomputes five
  figures in JavaScript Numbers (\<open>weeklyIncome = hoursPerWeek * hourlyRate\<close>,
  \<open>monthlyGross = weeklyIncome * 4.33\<close>, \<open>annualGross = monthlyGross * 12\<close>,
  \<open>monthlyNet = monthlyGross - monthlyExpenses\<close>, \<open>annualNet = monthlyNet * 12\<close>),
  looks up the selected hustle type in \<open>HUSTLE_TYPES\<close>, and formats the figures with
  \<open>toLocaleString\<close> as whole US dollars.

  \<^bold>\<open>The theories.\<close>
  \<^item> \<open>Prelude\<close>: executable powers of two and binary logarithm over \<open>int\<close> and
    \<open>rat\<close>, with their bounds; the \<open>pow2_simps\<close> collection.
  \<^item> \<open>Float64\<close>: the JavaScript Number type as IEEE 754 binary64 (ECMA-262 6.1.6.1):
    round-to-nearest-even of a rational (\<open>rnd\<close>, \<open>round_f64\<close>), the operations
    \<open>fadd\<close>, \<open>fsub\<close>, \<open>fmul\<close>, \<open>fneg\<close>, and their lemmas: error bound, exactness on
    doubles, idempotence, sign, well-formedness of every result.
  \<^item> \<open>JsRuntime\<close>: \<open>ToBoolean\<close>, \<open>||\<close> and the global \<open>parseInt\<close> (ECMA-262 19.2.5).
  \<^item> \<open>Calculator\<close>: \<open>HustleInput\<close> as the record \<open>hustle_input\<close>, the tables
    \<open>HUSTLE_TIPS\<close> and \<open>HUSTLE_TYPES\<close>, the initial state \<open>init_values\<close> (line 27),
    \<open>handleChange\<close> (line 28), the computation of lines 31-36 as \<open>derive\<close>, the lookup of
    line 40 as \<open>selectedHustle\<close>, and the form's handlers (lines 53, 66, 70, 74, 77) as
    \<open>on_event\<close> over the event type \<open>ui_event\<close>; \<open>run_events\<close> runs a sequence of
    events and \<open>reachable\<close> is the set of states the form can reach.
  \<^item> \<open>IntlFormat\<close>: \<open>fmt\<close> (line 38) over \<open>toLocaleString\<close> with the options
    en-US, currency USD, no fraction digits (ECMA-402): the magnitude rounded half away
    from zero, a minus sign for negatives and \<open>-0\<close>, commas between groups of three
    digits; \<open>money_value\<close> reads a printed amount back.
  \<^item> \<open>View\<close>: the returned JSX (lines 42-162) as \<open>render\<close>, a function from the state to
    the record \<open>page\<close> of what the page shows (select, rate hint, number inputs with
    their placeholders, results panel, tips, breakdown table); \<open>ui_reachable\<close> are the
    states reached by events the rendered page can raise.
  \<^item> \<open>IncomeSpec\<close>: the specification's DerivedIncome formulas in exact rational
    arithmetic (\<open>derive_exact\<close>), the abstract contract that \<open>derive\<close> implements.

  \<^bold>\<open>What is proved.\<close>
  \<^item> Arithmetic (\<open>Calculator\<close>, \<open>IncomeSpec\<close>): both examples of the specification hold
    exactly in binary64; the weekly income of integer inputs is exact; the monthly gross
    is within \<open>|w|/2^50\<close> of \<open>w * 4.33\<close>; the net is negative exactly when gross is below
    expenses; and \<open>derive\<close> refines \<open>derive_exact\<close>: for integer inputs below \<open>2^53\<close>
    every figure is finite and within \<open>(|w| + |e|)/2^45\<close> of the exact one, the bound
    composed from the per-operation error \<open>|rnd q - q| \<le> |q|/2^53 + 2^-1075\<close> of \<open>Float64\<close>.
  \<^item> Events (\<open>Calculator\<close>): every reachable numeric field is an integer double or an
    infinity, never NaN or \<open>-0\<close> (rule induction over \<open>reachable\<close>); text without digits
    gives 0; typing the digits of a whole number below \<open>2^53\<close> stores it exactly;
    \<open>12.50\<close> is stored as 12 and \<open>1e3\<close> as 1.
  \<^item> Display (\<open>IntlFormat\<close>, \<open>View\<close>): \<open>fmt\<close> round-trips to a whole amount within half a
    dollar, and prints \<open>-$0\<close> exactly for values in \<open>(-1/2, 0]\<close> with a sign; the rate
    hint is absent exactly for unknown types and always present on states the page
    can reach; a number input shows its placeholder exactly when its field is 0; a
    309-digit number of hours with a rate of 0 makes every panel figure \<open>$NaN\<close>.

  \<^bold>\<open>Bounds.\<close> Exactness results assume integers below \<open>2^53\<close> in magnitude, the range
  in which every integer is a binary64 value; larger digit strings are rounded or
  overflow to an infinity, which the invariant allows.  No loop of the program can
  diverge, so no fuel is used: every definition is total.

  \<^bold>\<open>Not modelled.\<close> Layout and styling, React's scheduling of renders (a state update is
  applied before the next event, which is all the component relies on), and the
  advertisement placeholders, which hold no behaviour.
\<close>

end
